theory Spec2Isabelle
  imports Complex_Main "HOL-Library.Log_Nat"
begin

section \<open>Python floats: IEEE 754 binary64 with round-to-nearest-even\<close>

text \<open>
  The scoring engine computes with Python \<^verbatim>\<open>float\<close>, that is IEEE 754 binary64.  A finite
  float is a rational number, so the carrier of the model is \<^typ>\<open>rat\<close>, and every float
  operation of the source is the exact operation followed by \<open>rnd\<close>, rounding to the nearest
  number with a 53 bit significand, ties to the even significand.  The exponent is not
  bounded in the model: the values of the engine stay far away from overflow, and a sum or
  difference of two floats is never subnormal unless it is exact.  A float literal of the
  source such as \<^verbatim>\<open>0.35\<close> is \<open>flt 0.35\<close>, the float nearest to the decimal.

  \<open>ilog2 q\<close> is the binary exponent of a positive rational, \<open>\<lfloor>log\<^sub>2 q\<rfloor>\<close>, computed from the bit
  lengths of numerator and denominator; \<open>rhe\<close> rounds a rational to the nearest integer,
  ties to even.
\<close>

type_synonym pyfloat = rat

definition ilog2 :: "rat \<Rightarrow> int" where
  "ilog2 q = (case quotient_of q of (a, b) \<Rightarrow>
     (let d = bitlen a - bitlen b in if 2 powi d \<le> q then d else d - 1))"

definition rhe :: "rat \<Rightarrow> int" where
  "rhe x = (let f = \<lfloor>x\<rfloor>; d = x - of_int f in
     if d < 1/2 then f else if 1/2 < d then f + 1 else if even f then f else f + 1)"

definition rnd :: "rat \<Rightarrow> rat" where
  "rnd q = (if q = 0 then 0 else
     (let e = ilog2 \<bar>q\<bar> in sgn q * of_int (rhe (\<bar>q\<bar> * 2 powi (52 - e))) * 2 powi (e - 52)))"

text \<open>\<open>is_float x\<close>: the rational \<open>x\<close> is a float, a fixed point of the rounding.\<close>

definition is_float :: "rat \<Rightarrow> bool" where
  "is_float x = (rnd x = x)"

definition flt :: "rat \<Rightarrow> pyfloat" where
  "flt q = rnd q"

definition fadd :: "pyfloat \<Rightarrow> pyfloat \<Rightarrow> pyfloat" where
  "fadd a b = rnd (a + b)"

definition fsub :: "pyfloat \<Rightarrow> pyfloat \<Rightarrow> pyfloat" where
  "fsub a b = rnd (a - b)"

definition fmul :: "pyfloat \<Rightarrow> pyfloat \<Rightarrow> pyfloat" where
  "fmul a b = rnd (a * b)"

definition fdiv :: "pyfloat \<Rightarrow> pyfloat \<Rightarrow> pyfloat" where
  "fdiv a b = rnd (a / b)"

text \<open>
  \<^verbatim>\<open>round(x, 3)\<close>: CPython rounds the exact value of the float to three decimals (ties to
  even, on the exact binary value) and returns the float nearest to that decimal.
\<close>

definition round3 :: "pyfloat \<Rightarrow> pyfloat" where
  "round3 x = rnd (of_int (rhe (x * 1000)) / 1000)"

text \<open>
  \<^verbatim>\<open>timedelta.total_seconds()\<close> divides the whole number of microseconds by \<open>10\<^sup>6\<close>, a true
  division of integers, which Python rounds correctly.
\<close>

definition total_seconds :: "int \<Rightarrow> pyfloat" where
  "total_seconds us = rnd (of_int us / 1000000)"

section \<open>Python strings\<close>

text \<open>
  A \<^verbatim>\<open>str\<close> is modelled as a \<^typ>\<open>string\<close> whose characters are the code points below 256.
  On these, \<^verbatim>\<open>str.lower\<close> maps \<open>A\<close>..\<open>Z\<close> and the Latin-1 capitals (192..222 without the
  multiplication sign 215) to the letter 32 code points up, and \<^verbatim>\<open>str.isspace\<close> holds of the
  code points 9..13, 28..32, 133 and 160.
\<close>

definition isspace :: "char \<Rightarrow> bool" where
  "isspace c = (of_char c \<in> {9, 10, 11, 12, 13, 28, 29, 30, 31, 32, 133, 160 :: nat})"

definition lower_char :: "char \<Rightarrow> char" where
  "lower_char c =
     (let n = of_char c :: nat in
      if (65 \<le> n \<and> n \<le> 90) \<or> (192 \<le> n \<and> n \<le> 222 \<and> n \<noteq> 215)
      then char_of (n + 32) else c)"

definition str_lower :: "string \<Rightarrow> string" where
  "str_lower s = map lower_char s"

text \<open>\<^verbatim>\<open>s.strip()\<close> removes the white space at both ends.\<close>

definition str_strip :: "string \<Rightarrow> string" where
  "str_strip s = rev (dropWhile isspace (rev (dropWhile isspace s)))"

text \<open>
  \<^verbatim>\<open>s.split()\<close> cuts at runs of white space and returns the words between them, none of
  them empty.  \<open>split_from w s\<close> scans \<open>s\<close> with the word \<open>w\<close> read so far.
\<close>

fun split_from :: "string \<Rightarrow> string \<Rightarrow> string list" where
  "split_from w [] = (if w = [] then [] else [w])"
| "split_from w (c # cs) =
     (if isspace c then (if w = [] then split_from [] cs else w # split_from [] cs)
      else split_from (w @ [c]) cs)"

definition str_split :: "string \<Rightarrow> string list" where
  "str_split s = split_from [] s"

text \<open>\<^verbatim>\<open>k in s\<close> on strings: \<open>k\<close> occurs in \<open>s\<close> as a contiguous substring.\<close>

fun str_in :: "string \<Rightarrow> string \<Rightarrow> bool" where
  "str_in k [] = (k = [])"
| "str_in k (c # cs) = (take (length k) (c # cs) = k \<or> str_in k cs)"

section \<open>The data model\<close>

text \<open>
  A \<^verbatim>\<open>datetime\<close> is its wall-clock reading, in microseconds since \<^verbatim>\<open>datetime.min\<close> (midnight
  of 1 January of the year 1), together with the offset of its \<^verbatim>\<open>tzinfo\<close> from UTC in
  microseconds, \<open>None\<close> for a naive one.  The readings of a \<^verbatim>\<open>datetime\<close> run from \<open>0\<close> to
  \<open>DATETIME_MAX_US\<close>, the last microsecond of the year 9999.  An aware datetime in UTC, as
  \<^verbatim>\<open>_normalize_dt\<close> returns it and \<^verbatim>\<open>datetime.now(timezone.utc)\<close> reads it, is represented
  by its instant, a number of microseconds on the UTC time line.
\<close>

definition DATETIME_MAX_US :: int where
  "DATETIME_MAX_US = 315537897599999999"

record datetime =
  wall :: int
  utcoffset :: "int option"

record TodoFeatures =
  title :: string
  completed :: bool
  created_at :: "datetime option"
  due_date :: "datetime option"
  tags :: "string list"

record TodoPayload =
  title :: string
  completed :: bool
  created_at :: "datetime option"
  due_date :: "datetime option"
  tags :: "string list"

record ScoreResult = TodoPayload +
  priority_score :: pyfloat

datatype error = HTTPException nat string | ValidationError | OverflowError

section \<open>The scoring engine (scoring.py)\<close>

text \<open>The two dictionaries, in insertion order, which is the order Python iterates them in.\<close>

definition KEYWORD_WEIGHTS :: "(string \<times> pyfloat) list" where
  "KEYWORD_WEIGHTS =
     [(''urgent'', flt 0.35), (''asap'', flt 0.3), (''important'', flt 0.25),
      (''today'', flt 0.2), (''tomorrow'', flt 0.15), (''email'', flt 0.05),
      (''call'', flt 0.05)]"

definition TAG_WEIGHTS :: "(string \<times> pyfloat) list" where
  "TAG_WEIGHTS =
     [(''work'', flt 0.1), (''home'', flt 0.05), (''bug'', flt 0.2), (''feature'', flt 0.15)]"

definition keyword_bonus :: "string \<Rightarrow> pyfloat" where
  "keyword_bonus ttl =
     (let title_lc = str_lower ttl;
          bonus = foldl (\<lambda>bonus (keyword, weight).
                    if str_in keyword title_lc then fadd bonus weight else bonus)
                  0 KEYWORD_WEIGHTS;
          bonus = (if 8 \<le> length (str_split title_lc) then fadd bonus (flt 0.05) else bonus)
      in min bonus (flt 0.45))"

definition tag_weight :: "string \<Rightarrow> pyfloat" where
  "tag_weight raw =
     (case map_of TAG_WEIGHTS (str_strip (str_lower raw)) of
        Some w \<Rightarrow> w
      | None \<Rightarrow> flt 0.03)"

definition tag_bonus :: "string list \<Rightarrow> pyfloat" where
  "tag_bonus tgs =
     (if tgs = [] then 0
      else min (foldl (\<lambda>bonus raw. fadd bonus (tag_weight raw)) 0 tgs) (flt 0.25))"

text \<open>
  The two bonuses that read the clock take the instant read as their first argument.
\<close>

definition age_bonus :: "int \<Rightarrow> int option \<Rightarrow> pyfloat" where
  "age_bonus now created =
     (case created of
        None \<Rightarrow> 0
      | Some c \<Rightarrow>
          (let age_hours = fdiv (total_seconds (now - c)) 3600 in
           if age_hours \<le> 24 then flt 0.05
           else if age_hours \<le> 24 * 3 then flt 0.1
           else if age_hours \<le> 24 * 7 then flt 0.15
           else flt 0.2))"

definition due_date_bonus :: "int \<Rightarrow> int option \<Rightarrow> pyfloat" where
  "due_date_bonus now due =
     (case due of
        None \<Rightarrow> 0
      | Some d \<Rightarrow>
          (let delta_hours = fdiv (total_seconds (d - now)) 3600 in
           if delta_hours \<le> 0 then flt 0.3
           else if delta_hours \<le> 24 then flt 0.25
           else if delta_hours \<le> 24 * 3 then flt 0.2
           else if delta_hours \<le> 24 * 7 then flt 0.1
           else flt 0.05))"

text \<open>
  \<^verbatim>\<open>_normalize_dt\<close>: a naive value is taken as UTC.  For an aware one,
  \<^verbatim>\<open>value.astimezone(timezone.utc)\<close> subtracts the offset, and raises \<^verbatim>\<open>OverflowError\<close> when
  the result leaves the range of \<^verbatim>\<open>datetime\<close>.
\<close>

definition normalize_dt :: "datetime option \<Rightarrow> error + int option" where
  "normalize_dt v =
     (case v of
        None \<Rightarrow> Inr None
      | Some dt \<Rightarrow>
          (case utcoffset dt of
             None \<Rightarrow> Inr (Some (wall dt))
           | Some off \<Rightarrow>
               (let utc = wall dt - off in
                if utc < 0 \<or> DATETIME_MAX_US < utc then Inl OverflowError
                else Inr (Some utc))))"

text \<open>
  \<open>priority_score features now\<^sub>1 now\<^sub>2\<close>: the age bonus reads the clock as \<open>now\<^sub>1\<close>, the due-date
  bonus, called after it, as \<open>now\<^sub>2\<close>.  An \<^verbatim>\<open>OverflowError\<close> of either normalization leaves
  the function, the one of the creation time first.
\<close>

definition priority_score :: "TodoFeatures \<Rightarrow> int \<Rightarrow> int \<Rightarrow> error + pyfloat" where
  "priority_score features now1 now2 =
     (let score = flt 0.35;
          score = fadd score (keyword_bonus (TodoFeatures.title features));
          score = fadd score (tag_bonus (TodoFeatures.tags features))
      in case normalize_dt (TodoFeatures.created_at features) of
           Inl e \<Rightarrow> Inl e
         | Inr created \<Rightarrow>
             (let score = fadd score (age_bonus now1 created)
              in case normalize_dt (TodoFeatures.due_date features) of
                   Inl e \<Rightarrow> Inl e
                 | Inr due \<Rightarrow>
                     (let score = fadd score (due_date_bonus now2 due);
                          score = (if TodoFeatures.completed features
                                   then fsub score (flt 0.6) else score)
                      in Inr (max 0 (min 1 (round3 score))))))"

text \<open>
  The running total of \<open>priority_score\<close> after the four bonuses and before the completion
  penalty: the float sum \<open>0.35 + keyword bonus + tag bonus + age bonus + due-date bonus\<close>, added
  from left to right, or the error of a normalization.  The claims about the penalty are
  stated with it.
\<close>

definition pre_completion_score :: "TodoFeatures \<Rightarrow> int \<Rightarrow> int \<Rightarrow> error + pyfloat" where
  "pre_completion_score features now1 now2 =
     (case normalize_dt (TodoFeatures.created_at features) of
        Inl e \<Rightarrow> Inl e
      | Inr created \<Rightarrow>
          (case normalize_dt (TodoFeatures.due_date features) of
             Inl e \<Rightarrow> Inl e
           | Inr due \<Rightarrow>
               Inr (fadd (fadd (fadd (fadd (flt 0.35)
                 (keyword_bonus (TodoFeatures.title features)))
                 (tag_bonus (TodoFeatures.tags features)))
                 (age_bonus now1 created))
                 (due_date_bonus now2 due))))"

text \<open>
  \<open>utc_in_range v\<close>: the optional timestamp is absent, or naive, or aware with an instant in
  UTC that is a \<^verbatim>\<open>datetime\<close>.
\<close>

definition utc_in_range :: "datetime option \<Rightarrow> bool" where
  "utc_in_range v =
     (case v of
        None \<Rightarrow> True
      | Some dt \<Rightarrow>
          (case utcoffset dt of
             None \<Rightarrow> True
           | Some off \<Rightarrow> 0 \<le> wall dt - off \<and> wall dt - off \<le> DATETIME_MAX_US))"

section \<open>The HTTP layer (main.py)\<close>

text \<open>
  The raw value of the \<^verbatim>\<open>tags\<close> field, as the validator \<^verbatim>\<open>normalize_tags\<close> receives it before
  any type check: \<^verbatim>\<open>None\<close>, a string, or a sequence of values.  A value of the sequence is
  \<^verbatim>\<open>None\<close>, a string, or any other object, of which the validator uses its truth value and
  its \<^verbatim>\<open>str()\<close> only.
\<close>

datatype pyval = PNone | PStr string | PObj bool string

datatype raw_tags = RNone | RStr string | RSeq "pyval list"

fun py_bool :: "pyval \<Rightarrow> bool" where
  "py_bool PNone = False"
| "py_bool (PStr s) = (s \<noteq> [])"
| "py_bool (PObj b s) = b"

fun py_str :: "pyval \<Rightarrow> string" where
  "py_str PNone = ''None''"
| "py_str (PStr s) = s"
| "py_str (PObj b s) = s"

definition normalize_tags :: "raw_tags \<Rightarrow> string list" where
  "normalize_tags v =
     (case v of
        RNone \<Rightarrow> []
      | RStr s \<Rightarrow> [s]
      | RSeq items \<Rightarrow>
          foldl (\<lambda>tgs item. if \<not> py_bool item then tgs else tgs @ [str_strip (py_str item)])
            [] items)"

text \<open>
  Constructing a \<^verbatim>\<open>TodoPayload\<close> or a \<^verbatim>\<open>ScoreResult\<close> validates the fields: the \<^verbatim>\<open>tags\<close>
  argument goes through \<^verbatim>\<open>normalize_tags\<close>, which \<^verbatim>\<open>ScoreResult\<close> inherits, the title has 1
  to 200 characters and there are at most 20 tags.
\<close>

definition TodoPayload_init ::
    "string \<Rightarrow> bool \<Rightarrow> datetime option \<Rightarrow> datetime option \<Rightarrow> raw_tags \<Rightarrow> error + TodoPayload" where
  "TodoPayload_init t c cr du tg =
     (let tgs = normalize_tags tg in
      if length t < 1 \<or> 200 < length t \<or> 20 < length tgs then Inl ValidationError
      else Inr \<lparr>TodoPayload.title = t, completed = c, created_at = cr, due_date = du, tags = tgs\<rparr>)"

definition ScoreResult_init ::
    "string \<Rightarrow> bool \<Rightarrow> datetime option \<Rightarrow> datetime option \<Rightarrow> raw_tags \<Rightarrow> pyfloat
       \<Rightarrow> error + ScoreResult" where
  "ScoreResult_init t c cr du tg ps =
     (let tgs = normalize_tags tg in
      if length t < 1 \<or> 200 < length t \<or> 20 < length tgs then Inl ValidationError
      else Inr \<lparr>TodoPayload.title = t, completed = c, created_at = cr, due_date = du, tags = tgs,
                 ScoreResult.priority_score = ps\<rparr>)"

text \<open>
  The handler.  \<open>clock i\<close> is the pair of instants the clock shows while the \<open>i\<close>-th record is
  scored.  \<open>score_loop\<close> is the \<^verbatim>\<open>for\<close> loop, with the list \<^verbatim>\<open>results\<close> built so far; the
  score of a record is computed before its \<^verbatim>\<open>ScoreResult\<close> is constructed, and an error of
  either ends the loop.
\<close>

fun score_loop ::
    "(nat \<Rightarrow> int \<times> int) \<Rightarrow> nat \<Rightarrow> ScoreResult list \<Rightarrow> TodoPayload list \<Rightarrow> error + ScoreResult list" where
  "score_loop clock i results [] = Inr results"
| "score_loop clock i results (todo # todos) =
     (let features = \<lparr>TodoFeatures.title = TodoPayload.title todo,
                       completed = TodoPayload.completed todo,
                       created_at = TodoPayload.created_at todo,
                       due_date = TodoPayload.due_date todo,
                       tags = TodoPayload.tags todo\<rparr>
      in case priority_score features (fst (clock i)) (snd (clock i)) of
           Inl e \<Rightarrow> Inl e
         | Inr ps \<Rightarrow>
             (case ScoreResult_init (TodoPayload.title todo) (TodoPayload.completed todo)
                     (TodoPayload.created_at todo) (TodoPayload.due_date todo)
                     (RSeq (map PStr (TodoPayload.tags todo))) ps of
                Inl e \<Rightarrow> Inl e
              | Inr r \<Rightarrow> score_loop clock (Suc i) (results @ [r]) todos))"

definition score :: "(nat \<Rightarrow> int \<times> int) \<Rightarrow> TodoPayload list \<Rightarrow> error + ScoreResult list" where
  "score clock todos =
     (if length todos = 0 then Inl (HTTPException 400 ''at least one todo is required'')
      else score_loop clock 0 [] todos)"

section \<open>Properties of the rounding\<close>

lemma p2_pos: "0 < (2::rat) powi k"
  by (simp add: zero_less_power_int)

lemma p2_less: "a < b \<Longrightarrow> (2::rat) powi a < 2 powi b"
  by (rule power_int_strict_increasing) auto

lemma p2_le: "a \<le> b \<Longrightarrow> (2::rat) powi a \<le> 2 powi b"
  by (rule power_int_increasing) auto

lemma p2_less_D: "(2::rat) powi a < 2 powi b \<Longrightarrow> a < b"
  using p2_le [of b a] by (cases "a < b") auto

lemma p2_add: "(2::rat) powi (a + b) = 2 powi a * 2 powi b"
  by (simp add: power_int_add)


lemma bitlen_rat_bounds:
  assumes "0 < a"
  shows "(2::rat) powi (bitlen a - 1) \<le> of_int a" and "of_int a < (2::rat) powi (bitlen a)"
proof -
  have n1: "1 \<le> bitlen a"
    using assms bitlen_eq_zero_iff [of a] bitlen_nonneg [of a] by linarith
  from bitlen_bounds [OF assms]
  have lo: "2 ^ nat (bitlen a - 1) \<le> a" and hi: "a < 2 ^ nat (bitlen a)" by auto
  have "(of_int (2 ^ nat (bitlen a - 1)) :: rat) \<le> of_int a"
    using lo by (simp only: of_int_le_iff)
  then show "(2::rat) powi (bitlen a - 1) \<le> of_int a"
    using n1 by (simp add: power_int_nonneg_exp)
  have "(of_int a :: rat) < of_int (2 ^ nat (bitlen a))"
    using hi by (simp only: of_int_less_iff)
  then show "of_int a < (2::rat) powi (bitlen a)"
    using n1 by (simp add: power_int_nonneg_exp)
qed

lemma ilog2_bounds:
  assumes "0 < q"
  shows "2 powi (ilog2 q) \<le> q \<and> q < 2 powi (ilog2 q + 1)"
proof -
  obtain a b where ab: "quotient_of q = (a, b)" by (cases "quotient_of q")
  have b: "0 < b" using ab quotient_of_denom_pos by blast
  have q: "q = of_int a / of_int b" using ab quotient_of_div by blast
  have a: "0 < a" using assms q b by (simp add: zero_less_divide_iff)
  define d where "d = bitlen a - bitlen b"
  have B: "0 < (of_int b :: rat)" using b by simp
  have up: "q < 2 powi (d + 1)"
  proof -
    have "of_int a < (2::rat) powi (bitlen a)" by (rule bitlen_rat_bounds [OF a])
    also have "\<dots> = 2 powi (d + 1) * 2 powi (bitlen b - 1)"
      by (simp add: d_def flip: p2_add)
    also have "\<dots> \<le> 2 powi (d + 1) * of_int b"
      using bitlen_rat_bounds(1) [OF b] p2_pos [of "d + 1"] by (simp only: mult_le_cancel_left_pos)
    finally show ?thesis using B by (simp add: q pos_divide_less_eq)
  qed
  have lo: "2 powi (d - 1) < q"
  proof -
    have "2 powi (d - 1) * of_int b < 2 powi (d - 1) * (2::rat) powi (bitlen b)"
      using bitlen_rat_bounds(2) [OF b] p2_pos [of "d - 1"] by (simp only: mult_less_cancel_left_pos)
    also have "\<dots> = 2 powi (bitlen a - 1)"
      by (simp add: d_def flip: p2_add)
    also have "\<dots> \<le> of_int a" by (rule bitlen_rat_bounds [OF a])
    finally show ?thesis using B by (simp add: q pos_less_divide_eq)
  qed
  show ?thesis
  proof (cases "2 powi d \<le> q")
    case True
    then have "ilog2 q = d" by (simp add: ilog2_def ab d_def)
    then show ?thesis using True up by simp
  next
    case False
    then have "ilog2 q = d - 1" by (simp add: ilog2_def ab d_def)
    then show ?thesis using False lo by simp
  qed
qed

lemma ilog2_unique:
  assumes "0 < q" "2 powi e \<le> q" "q < 2 powi (e + 1)"
  shows "ilog2 q = e"
proof -
  from ilog2_bounds [OF assms(1)]
  have 1: "2 powi (ilog2 q) \<le> q" and 2: "q < 2 powi (ilog2 q + 1)" by auto
  have "(2::rat) powi e < 2 powi (ilog2 q + 1)" using assms(2) 2 by simp
  then have "e < ilog2 q + 1" by (rule p2_less_D)
  moreover have "(2::rat) powi (ilog2 q) < 2 powi (e + 1)" using 1 assms(3) by simp
  then have "ilog2 q < e + 1" by (rule p2_less_D)
  ultimately show ?thesis by simp
qed

lemma rhe_of_int: "rhe (of_int n) = n"
  by (simp add: rhe_def)

lemma rhe_cases: "rhe x = \<lfloor>x\<rfloor> \<or> rhe x = \<lfloor>x\<rfloor> + 1"
  by (simp add: rhe_def Let_def)

lemma rhe_err: "\<bar>of_int (rhe x) - x\<bar> \<le> 1/2"
proof -
  have "of_int \<lfloor>x\<rfloor> \<le> x" "x < of_int \<lfloor>x\<rfloor> + 1" by linarith+
  then show ?thesis by (auto simp: rhe_def Let_def abs_le_iff)
qed

lemma rhe_near:
  assumes "\<bar>x - of_int n\<bar> < 1/2"
  shows "rhe x = n"
proof -
  have e: "\<bar>of_int (rhe x) - x\<bar> \<le> 1/2" by (rule rhe_err)
  have "(of_int (rhe x) :: rat) < of_int n + 1" using assms e by linarith
  then have "(of_int (rhe x) :: rat) < of_int (n + 1)" by simp
  then have 1: "rhe x < n + 1" by (simp only: of_int_less_iff)
  have "(of_int n :: rat) - 1 < of_int (rhe x)" using assms e by linarith
  then have "(of_int (n - 1) :: rat) < of_int (rhe x)" by simp
  then have 2: "n - 1 < rhe x" by (simp only: of_int_less_iff)
  show ?thesis using 1 2 by simp
qed

lemma rhe_mono:
  assumes "x \<le> y"
  shows "rhe x \<le> rhe y"
proof (cases "\<lfloor>x\<rfloor> = \<lfloor>y\<rfloor>")
  case True
  then show ?thesis using assms by (auto simp: rhe_def Let_def)
next
  case False
  then have "\<lfloor>x\<rfloor> < \<lfloor>y\<rfloor>" using floor_mono [OF assms] by simp
  moreover have "rhe x \<le> \<lfloor>x\<rfloor> + 1" using rhe_cases [of x] by auto
  moreover have "\<lfloor>y\<rfloor> \<le> rhe y" using rhe_cases [of y] by auto
  ultimately show ?thesis by simp
qed


lemma p2_52: "(2::rat) ^ 52 * 2 powi (e - 52) = 2 powi e"
proof -
  have "(2::rat) powi 52 * 2 powi (e - 52) = 2 powi (52 + (e - 52))" by (rule p2_add [symmetric])
  then show ?thesis by simp
qed

lemma p2_53: "(2::rat) ^ 53 * 2 powi (e - 52) = 2 powi (e + 1)"
proof -
  have "(2::rat) powi 53 * 2 powi (e - 52) = 2 powi (53 + (e - 52))" by (rule p2_add [symmetric])
  then show ?thesis by (simp add: add.commute)
qed

lemma p2_cancel: "(2::rat) powi (e - 52) * 2 powi (52 - e) = 1"
proof -
  have "(2::rat) powi (e - 52) * 2 powi (52 - e) = 2 powi ((e - 52) + (52 - e))" by (rule p2_add [symmetric])
  then show ?thesis by simp
qed

lemma rnd_0: "rnd 0 = 0"
  by (simp add: rnd_def)

lemma rnd_minus: "rnd (- q) = - rnd q"
  by (simp add: rnd_def Let_def sgn_minus)

lemma rnd_pos_eq:
  "0 < q \<Longrightarrow> rnd q = of_int (rhe (q * 2 powi (52 - ilog2 q))) * 2 powi (ilog2 q - 52)"
  by (simp add: rnd_def Let_def)

lemma scaled_bounds:
  assumes "0 < q"
  shows "2 ^ 52 \<le> q * 2 powi (52 - ilog2 q)" and "q * 2 powi (52 - ilog2 q) < 2 ^ 53"
proof -
  let ?e = "ilog2 q"
  from ilog2_bounds [OF assms]
  have lo: "2 powi ?e \<le> q" and hi: "q < 2 powi (?e + 1)" by auto
  have "2 powi ?e * 2 powi (52 - ?e) \<le> q * 2 powi (52 - ?e)"
    using lo p2_pos [of "52 - ?e"] by (simp only: mult_le_cancel_right_pos)
  moreover have "(2::rat) powi ?e * 2 powi (52 - ?e) = 2 powi 52"
  proof -
    have "(2::rat) powi ?e * 2 powi (52 - ?e) = 2 powi (?e + (52 - ?e))" by (rule p2_add [symmetric])
    then show ?thesis by simp
  qed
  ultimately show "2 ^ 52 \<le> q * 2 powi (52 - ?e)" by simp
  have "q * 2 powi (52 - ?e) < 2 powi (?e + 1) * 2 powi (52 - ?e)"
    using hi p2_pos [of "52 - ?e"] by (simp only: mult_less_cancel_right_pos)
  moreover have "(2::rat) powi (?e + 1) * 2 powi (52 - ?e) = 2 powi 53"
  proof -
    have "(2::rat) powi (?e + 1) * 2 powi (52 - ?e) = 2 powi ((?e + 1) + (52 - ?e))" by (rule p2_add [symmetric])
    then show ?thesis by simp
  qed
  ultimately show "q * 2 powi (52 - ?e) < 2 ^ 53" by simp
qed

lemma mant_bounds:
  assumes "0 < q"
  shows "2 ^ 52 \<le> rhe (q * 2 powi (52 - ilog2 q))" and "rhe (q * 2 powi (52 - ilog2 q)) \<le> 2 ^ 53"
proof -
  let ?s = "q * 2 powi (52 - ilog2 q)"
  have "rhe (of_int (2 ^ 52)) \<le> rhe ?s"
    using scaled_bounds(1) [OF assms] by (intro rhe_mono) simp
  then show "2 ^ 52 \<le> rhe ?s" by (simp only: rhe_of_int)
  have "rhe ?s \<le> rhe (of_int (2 ^ 53))"
    using scaled_bounds(2) [OF assms] by (intro rhe_mono) simp
  then show "rhe ?s \<le> 2 ^ 53" by (simp only: rhe_of_int)
qed

lemma rnd_lower:
  assumes "0 < q"
  shows "2 powi (ilog2 q) \<le> rnd q"
proof -
  have "(of_int (2 ^ 52) :: rat) \<le> of_int (rhe (q * 2 powi (52 - ilog2 q)))"
    using mant_bounds(1) [OF assms] by (simp only: of_int_le_iff)
  then have "2 ^ 52 * 2 powi (ilog2 q - 52) \<le> rnd q"
    using p2_pos [of "ilog2 q - 52"] by (simp add: rnd_pos_eq [OF assms])
  then show ?thesis by (simp only: p2_52)
qed

lemma rnd_upper:
  assumes "0 < q"
  shows "rnd q \<le> 2 powi (ilog2 q + 1)"
proof -
  have "(of_int (rhe (q * 2 powi (52 - ilog2 q))) :: rat) \<le> of_int (2 ^ 53)"
    using mant_bounds(2) [OF assms] by (simp only: of_int_le_iff)
  then have "rnd q \<le> 2 ^ 53 * 2 powi (ilog2 q - 52)"
    using p2_pos [of "ilog2 q - 52"] by (simp add: rnd_pos_eq [OF assms])
  then show ?thesis by (simp only: p2_53)
qed

lemma rnd_pos: "0 < q \<Longrightarrow> 0 < rnd q"
  using rnd_lower [of q] p2_pos [of "ilog2 q"] by linarith

lemma rnd_nonneg: "0 \<le> q \<Longrightarrow> 0 \<le> rnd q"
  using rnd_pos [of q] by (cases "q = 0") (simp_all add: rnd_0)

lemma rnd_mono_pos:
  assumes "0 < a" "a \<le> b"
  shows "rnd a \<le> rnd b"
proof -
  have b: "0 < b" using assms by simp
  from ilog2_bounds [OF assms(1)] ilog2_bounds [OF b]
  have "2 powi (ilog2 a) < (2::rat) powi (ilog2 b + 1)" using assms(2) by simp
  then have le: "ilog2 a \<le> ilog2 b" using p2_less_D by fastforce
  show ?thesis
  proof (cases "ilog2 a = ilog2 b")
    case True
    have "a * 2 powi (52 - ilog2 b) \<le> b * 2 powi (52 - ilog2 b)"
      using assms(2) p2_pos [of "52 - ilog2 b"] by (simp only: mult_le_cancel_right_pos)
    then have "rhe (a * 2 powi (52 - ilog2 b)) \<le> rhe (b * 2 powi (52 - ilog2 b))"
      by (rule rhe_mono)
    then have "(of_int (rhe (a * 2 powi (52 - ilog2 b))) :: rat) \<le> of_int (rhe (b * 2 powi (52 - ilog2 b)))"
      by (simp only: of_int_le_iff)
    then show ?thesis
      using p2_pos [of "ilog2 b - 52"]
      by (simp add: rnd_pos_eq [OF assms(1)] rnd_pos_eq [OF b] True)
  next
    case False
    then have "ilog2 a + 1 \<le> ilog2 b" using le by simp
    then have "(2::rat) powi (ilog2 a + 1) \<le> 2 powi (ilog2 b)" by (rule p2_le)
    then show ?thesis using rnd_upper [OF assms(1)] rnd_lower [OF b] by simp
  qed
qed

lemma rnd_mono:
  assumes "a \<le> b"
  shows "rnd a \<le> rnd b"
proof -
  consider "0 < a" | "a \<le> 0" "0 \<le> b" | "b < 0" using assms by linarith
  then show ?thesis
  proof cases
    case 1
    then show ?thesis using assms by (rule rnd_mono_pos)
  next
    case 2
    have "0 \<le> rnd (- a)" using 2 by (intro rnd_nonneg) simp
    then have "rnd a \<le> 0" by (simp add: rnd_minus)
    then show ?thesis using rnd_nonneg [OF 2(2)] by simp
  next
    case 3
    have "rnd (- b) \<le> rnd (- a)" using 3 assms by (intro rnd_mono_pos) simp_all
    then show ?thesis by (simp add: rnd_minus)
  qed
qed

lemma rnd_idem_pos:
  assumes "0 < q"
  shows "rnd (rnd q) = rnd q"
proof -
  let ?e = "ilog2 q"
  let ?m = "rhe (q * 2 powi (52 - ?e))"
  have r: "rnd q = of_int ?m * 2 powi (?e - 52)" by (rule rnd_pos_eq [OF assms])
  have rp: "0 < rnd q" by (rule rnd_pos [OF assms])
  show ?thesis
  proof (cases "?m = 2 ^ 53")
    case True
    have v: "rnd q = 2 powi (?e + 1)"
    proof -
      have "rnd q = 2 ^ 53 * 2 powi (?e - 52)" by (simp add: r True)
      then show ?thesis by (simp only: p2_53)
    qed
    have "ilog2 (rnd q) = ?e + 1"
      using rp by (rule ilog2_unique) (simp_all add: v p2_less)
    then have "rnd (rnd q) = of_int (rhe (2 powi (?e + 1) * 2 powi (52 - (?e + 1)))) * 2 powi (?e + 1 - 52)"
      using rnd_pos_eq [OF rp] by (simp add: v)
    also have "(2::rat) powi (?e + 1) * 2 powi (52 - (?e + 1)) = of_int (2 ^ 52)"
    proof -
      have "(2::rat) powi (?e + 1) * 2 powi (52 - (?e + 1)) = 2 powi ((?e + 1) + (52 - (?e + 1)))"
        by (rule p2_add [symmetric])
      then show ?thesis by simp
    qed
    also have "of_int (rhe (of_int (2 ^ 52))) * (2::rat) powi (?e + 1 - 52) = 2 ^ 52 * 2 powi (?e + 1 - 52)"
      by (simp only: rhe_of_int) simp
    also have "\<dots> = 2 powi (?e + 1)" by (rule p2_52)
    finally show ?thesis by (simp add: v)
  next
    case False
    then have m53: "?m < 2 ^ 53" using mant_bounds(2) [OF assms] by simp
    have "(of_int ?m :: rat) < of_int (2 ^ 53)" using m53 by (simp only: of_int_less_iff)
    then have "rnd q < 2 ^ 53 * 2 powi (?e - 52)"
      using p2_pos [of "?e - 52"] by (simp add: r)
    then have hi: "rnd q < 2 powi (?e + 1)" by (simp only: p2_53)
    have "ilog2 (rnd q) = ?e"
      using rp rnd_lower [OF assms] hi by (rule ilog2_unique)
    then have "rnd (rnd q) = of_int (rhe (of_int ?m * 2 powi (?e - 52) * 2 powi (52 - ?e))) * 2 powi (?e - 52)"
      using rnd_pos_eq [OF rp] by (simp add: r)
    also have "of_int ?m * (2::rat) powi (?e - 52) * 2 powi (52 - ?e) = of_int ?m"
      by (simp add: mult.assoc p2_cancel)
    finally show ?thesis by (simp add: rhe_of_int r)
  qed
qed

lemma rnd_idem: "rnd (rnd q) = rnd q"
proof -
  consider "0 < q" | "q = 0" | "q < 0" by linarith
  then show ?thesis
  proof cases
    case 1
    then show ?thesis by (rule rnd_idem_pos)
  next
    case 2
    then show ?thesis by (simp add: rnd_0)
  next
    case 3
    then have "rnd (rnd (- q)) = rnd (- q)" by (intro rnd_idem_pos) simp
    then show ?thesis by (simp add: rnd_minus)
  qed
qed



section \<open>Rounding to three decimals, then clamping\<close>







lemma normalize_dt_in_range:
  "utc_in_range v \<Longrightarrow> \<exists>c. normalize_dt v = Inr c"
  by (auto simp: utc_in_range_def normalize_dt_def Let_def split: option.splits)

lemma normalize_dt_out_of_range:
  "\<not> utc_in_range v \<Longrightarrow> normalize_dt v = Inl OverflowError"
  by (auto simp: utc_in_range_def normalize_dt_def Let_def split: option.splits)

lemma priority_score_clamped:
  assumes "utc_in_range (TodoFeatures.created_at f)" and "utc_in_range (TodoFeatures.due_date f)"
  shows "\<exists>x. priority_score f n1 n2 = Inr (max 0 (min 1 (round3 x)))"
proof -
  obtain c d where c: "normalize_dt (TodoFeatures.created_at f) = Inr c"
    and d: "normalize_dt (TodoFeatures.due_date f) = Inr d"
    using assms normalize_dt_in_range by blast
  show ?thesis
    unfolding priority_score_def Let_def by (simp only: c d sum.case) (rule exI, rule refl)
qed

lemma priority_score_raises:
  assumes "\<not> (utc_in_range (TodoFeatures.created_at f) \<and> utc_in_range (TodoFeatures.due_date f))"
  shows "priority_score f n1 n2 = Inl OverflowError"
proof (cases "utc_in_range (TodoFeatures.created_at f)")
  case False
  then show ?thesis
    by (simp add: priority_score_def Let_def normalize_dt_out_of_range)
next
  case True
  then obtain c where c: "normalize_dt (TodoFeatures.created_at f) = Inr c"
    using normalize_dt_in_range by blast
  have "\<not> utc_in_range (TodoFeatures.due_date f)" using assms True by simp
  then show ?thesis
    by (simp add: priority_score_def Let_def c normalize_dt_out_of_range)
qed

section \<open>The hour thresholds, on exact elapsed time\<close>

text \<open>
  The source compares a float, the elapsed seconds divided by 3600.  Both divisions round
  monotonically and are exact at the thresholds, so each comparison decides the same as the
  comparison of the exact number of microseconds.
\<close>

lemma total_seconds_mono: "a \<le> b \<Longrightarrow> total_seconds a \<le> total_seconds b"
  unfolding total_seconds_def by (rule rnd_mono) (simp add: divide_right_mono)

lemma hours_mono:
  "a \<le> b \<Longrightarrow> fdiv (total_seconds a) 3600 \<le> fdiv (total_seconds b) 3600"
  unfolding fdiv_def by (rule rnd_mono) (simp add: divide_right_mono total_seconds_mono)

lemma hours_le_iff:
  assumes "fdiv (total_seconds h) 3600 \<le> H" and "H < fdiv (total_seconds (h + 1)) 3600"
  shows "fdiv (total_seconds d) 3600 \<le> H \<longleftrightarrow> d \<le> h"
proof
  assume le: "fdiv (total_seconds d) 3600 \<le> H"
  show "d \<le> h"
  proof (rule ccontr)
    assume "\<not> d \<le> h"
    then have "h + 1 \<le> d" by simp
    then have "fdiv (total_seconds (h + 1)) 3600 \<le> fdiv (total_seconds d) 3600"
      by (rule hours_mono)
    then show False using le assms(2) by simp
  qed
next
  assume "d \<le> h"
  then have "fdiv (total_seconds d) 3600 \<le> fdiv (total_seconds h) 3600" by (rule hours_mono)
  then show "fdiv (total_seconds d) 3600 \<le> H" using assms(1) by simp
qed

lemma hours_at_0: "fdiv (total_seconds 0) 3600 \<le> 0"
  by code_simp

lemma hours_after_0: "0 < fdiv (total_seconds (0 + 1)) 3600"
  by code_simp

lemma hours_at_24: "fdiv (total_seconds 86400000000) 3600 \<le> 24"
  by code_simp

lemma hours_after_24: "24 < fdiv (total_seconds (86400000000 + 1)) 3600"
  by code_simp

lemma hours_at_72: "fdiv (total_seconds 259200000000) 3600 \<le> 72"
  by code_simp

lemma hours_after_72: "72 < fdiv (total_seconds (259200000000 + 1)) 3600"
  by code_simp

lemma hours_at_168: "fdiv (total_seconds 604800000000) 3600 \<le> 168"
  by code_simp

lemma hours_after_168: "168 < fdiv (total_seconds (604800000000 + 1)) 3600"
  by code_simp

lemmas hours_thresholds =
  hours_le_iff [OF hours_at_0 hours_after_0]
  hours_le_iff [OF hours_at_24 hours_after_24]
  hours_le_iff [OF hours_at_72 hours_after_72]
  hours_le_iff [OF hours_at_168 hours_after_168]

lemma exact_hours_le:
  "(of_int d / 3600000000 \<le> (of_int H :: rat)) \<longleftrightarrow> d \<le> H * 3600000000"
proof -
  have "(of_int d / 3600000000 \<le> (of_int H :: rat)) \<longleftrightarrow> (of_int d :: rat) \<le> of_int (H * 3600000000)"
    by (simp add: pos_divide_le_eq)
  then show ?thesis by (simp only: of_int_le_iff)
qed

lemma age_bonus_exact:
  "age_bonus now (Some c) =
     (let h = of_int (now - c) / 3600000000 :: rat in
      if h \<le> 24 then flt 0.05 else if h \<le> 72 then flt 0.1
      else if h \<le> 168 then flt 0.15 else flt 0.2)"
  using exact_hours_le [of "now - c" 24] exact_hours_le [of "now - c" 72]
    exact_hours_le [of "now - c" 168]
  by (simp add: age_bonus_def Let_def hours_thresholds)

lemma due_date_bonus_exact:
  "due_date_bonus now (Some d) =
     (let h = of_int (d - now) / 3600000000 :: rat in
      if h \<le> 0 then flt 0.3 else if h \<le> 24 then flt 0.25 else if h \<le> 72 then flt 0.2
      else if h \<le> 168 then flt 0.1 else flt 0.05)"
  using exact_hours_le [of "d - now" 0] exact_hours_le [of "d - now" 24]
    exact_hours_le [of "d - now" 72] exact_hours_le [of "d - now" 168]
  by (simp add: due_date_bonus_def Let_def hours_thresholds)


lemma flt_pos: "0 < q \<Longrightarrow> 0 < flt q"
  unfolding flt_def by (rule rnd_pos)

lemma age_bonus_future:
  assumes "now < c"
  shows "age_bonus now (Some c) = flt 0.05"
proof -
  have "(of_int (now - c) :: rat) / 3600000000 \<le> 24"
    using assms exact_hours_le [of "now - c" 24] by simp
  then show ?thesis by (simp add: age_bonus_exact Let_def)
qed

section \<open>Sums of floats and the keyword bonus\<close>

lemma is_float_0: "is_float 0"
  by (simp add: is_float_def rnd_0)

lemma is_float_rnd: "is_float (rnd q)"
  by (simp add: is_float_def rnd_idem)

lemma is_float_flt: "is_float (flt q)"
  by (simp add: flt_def is_float_rnd)

lemma is_float_fadd: "is_float (fadd a b)"
  by (simp add: fadd_def is_float_rnd)

lemma is_float_sum: "is_float a \<Longrightarrow> is_float (foldl fadd a ws)"
  by (induction ws arbitrary: a) (simp_all add: is_float_fadd)

lemma fadd_0_right: "is_float a \<Longrightarrow> fadd a 0 = a"
  by (simp add: fadd_def is_float_def)

lemma fadd_mono: "a \<le> b \<Longrightarrow> c \<le> d \<Longrightarrow> fadd a c \<le> fadd b d"
  unfolding fadd_def by (rule rnd_mono) simp

lemma fadd_increasing: "is_float b \<Longrightarrow> 0 \<le> w \<Longrightarrow> b \<le> fadd b w"
proof -
  assume b: "is_float b" and w: "0 \<le> w"
  have "rnd b \<le> rnd (b + w)" using w by (intro rnd_mono) simp
  then show ?thesis using b by (simp add: fadd_def is_float_def)
qed

lemma flt_nonneg: "0 \<le> q \<Longrightarrow> 0 \<le> flt q"
  unfolding flt_def by (rule rnd_nonneg)

lemma foldl_keywords:
  "foldl (\<lambda>bonus (keyword, weight). if P keyword then fadd bonus weight else bonus) a kws =
   foldl fadd a (map snd (filter (\<lambda>kw. P (fst kw)) kws))"
  by (induction kws arbitrary: a) (auto simp: case_prod_beta)

lemma isspace_lower_char: "isspace (lower_char c) = isspace c"
proof -
  define n where "n = (of_char c :: nat)"
  show ?thesis
  proof (cases "(65 \<le> n \<and> n \<le> 90) \<or> (192 \<le> n \<and> n \<le> 222 \<and> n \<noteq> 215)")
    case True
    then have "(n + 32) mod 256 = n + 32" by auto
    then have e: "of_char (char_of (n + 32)) = n + 32" by (simp add: of_char_of)
    have l: "lower_char c = char_of (n + 32)"
      using True by (simp add: lower_char_def Let_def n_def)
    have "\<not> isspace (char_of (n + 32))"
      using True by (auto simp: isspace_def e)
    moreover have "\<not> isspace c"
      using True by (auto simp: isspace_def n_def)
    ultimately show ?thesis by (simp add: l)
  next
    case False
    then have "lower_char c = c" unfolding lower_char_def Let_def n_def by auto
    then show ?thesis by simp
  qed
qed

lemma split_from_lower:
  "length (split_from (map lower_char w) (map lower_char s)) = length (split_from w s)"
proof (induction s arbitrary: w)
  case Nil
  then show ?case by simp
next
  case (Cons a s)
  show ?case
    using Cons.IH [of "[]"] Cons.IH [of "w @ [a]"] by (simp add: isspace_lower_char)
qed

lemma word_count_lower: "length (str_split (str_lower s)) = length (str_split s)"
  using split_from_lower [of "[]" s] by (simp add: str_split_def str_lower_def)

lemma keyword_fold_mono:
  assumes "\<forall>kw\<in>set kws. 0 \<le> snd kw"
    and "\<forall>kw\<in>set kws. P (fst kw) \<longrightarrow> Q (fst kw)"
    and "a \<le> b" and "is_float b"
  shows "foldl fadd a (map snd (filter (\<lambda>kw. P (fst kw)) kws))
           \<le> foldl fadd b (map snd (filter (\<lambda>kw. Q (fst kw)) kws))"
  using assms
proof (induction kws arbitrary: a b)
  case Nil
  then show ?case by simp
next
  case (Cons kw kws)
  have w: "0 \<le> snd kw" using Cons.prems(1) by simp
  have rest: "\<forall>kw\<in>set kws. 0 \<le> snd kw" "\<forall>kw\<in>set kws. P (fst kw) \<longrightarrow> Q (fst kw)"
    using Cons.prems(1,2) by simp_all
  consider "P (fst kw)" "Q (fst kw)" | "\<not> P (fst kw)" "Q (fst kw)" | "\<not> P (fst kw)" "\<not> Q (fst kw)"
    using Cons.prems(2) by auto
  then show ?case
  proof cases
    case 1
    have "fadd a (snd kw) \<le> fadd b (snd kw)" using Cons.prems(3) by (intro fadd_mono) simp_all
    then show ?thesis
      using 1 Cons.IH [OF rest _ is_float_fadd] by simp
  next
    case 2
    have "a \<le> fadd b (snd kw)"
      using Cons.prems(3) fadd_increasing [OF Cons.prems(4) w] by simp
    then show ?thesis
      using 2 Cons.IH [OF rest _ is_float_fadd] by simp
  next
    case 3
    then show ?thesis
      using Cons.IH [OF rest Cons.prems(3,4)] by simp
  qed
qed

lemma keyword_weights_nonneg: "\<forall>kw\<in>set KEYWORD_WEIGHTS. 0 \<le> snd kw"
  by (simp add: KEYWORD_WEIGHTS_def flt_nonneg)

lemma keyword_bonus_sum:
  "keyword_bonus ttl =
     min (flt 0.45)
       (fadd (foldl fadd 0 (map snd (filter (\<lambda>kw. str_in (fst kw) (str_lower ttl)) KEYWORD_WEIGHTS)))
          (if 8 \<le> length (str_split ttl) then flt 0.05 else 0))"
  by (simp add: keyword_bonus_def Let_def foldl_keywords word_count_lower min.commute
      fadd_0_right is_float_sum is_float_0)

lemma keyword_bonus_mono:
  assumes "\<forall>k\<in>set (map fst KEYWORD_WEIGHTS). str_in k (str_lower t1) \<longrightarrow> str_in k (str_lower t2)"
    and "8 \<le> length (str_split t1) \<longrightarrow> 8 \<le> length (str_split t2)"
  shows "keyword_bonus t1 \<le> keyword_bonus t2"
proof -
  let ?S = "\<lambda>t. foldl fadd 0 (map snd (filter (\<lambda>kw. str_in (fst kw) (str_lower t)) KEYWORD_WEIGHTS))"
  let ?L = "\<lambda>t. if 8 \<le> length (str_split t) then flt 0.05 else (0::rat)"
  have "\<forall>kw\<in>set KEYWORD_WEIGHTS. str_in (fst kw) (str_lower t1) \<longrightarrow> str_in (fst kw) (str_lower t2)"
    using assms(1) by simp
  then have S: "?S t1 \<le> ?S t2"
    by (intro keyword_fold_mono keyword_weights_nonneg is_float_0) simp_all
  have L: "?L t1 \<le> ?L t2" using assms(2) by (simp add: flt_nonneg)
  have "fadd (?S t1) (?L t1) \<le> fadd (?S t2) (?L t2)"
    using S L by (rule fadd_mono)
  then show ?thesis
    unfolding keyword_bonus_sum by (simp add: min_le_iff_disj)
qed

lemma keyword_bonus_cap: "keyword_bonus ttl \<le> flt 0.45"
  by (simp add: keyword_bonus_sum)

section \<open>Evaluating floats\<close>

text \<open>
  A rounding is evaluated by checking its result: \<open>rnd q = m \<cdot> 2\<^bsup>e - 52\<^esup>\<close> when \<open>q\<close> lies in the
  binade of \<open>e\<close> and the scaled \<open>q\<close> is within one half of \<open>m\<close>, or exactly half way with \<open>m\<close>
  the even neighbour.  The values below are the float literals of the source and the sums
  that the examples of the specification run through.
\<close>

lemma rnd_eqI:
  assumes "2 powi e \<le> q" and "q < 2 powi (e + 1)"
    and "\<bar>q * 2 powi (52 - e) - of_int m\<bar> < 1 / 2"
    and "r = of_int m * 2 powi (e - 52)"
  shows "rnd q = r"
proof -
  have q: "0 < q" using assms(1) p2_pos [of e] by linarith
  have "ilog2 q = e" using q assms(1,2) by (rule ilog2_unique)
  moreover have "rhe (q * 2 powi (52 - e)) = m" using assms(3) by (rule rhe_near)
  ultimately show ?thesis by (simp add: rnd_pos_eq [OF q] assms(4))
qed

lemma rhe_tie:
  assumes "x = of_int k + 1 / 2"
  shows "rhe x = (if even k then k else k + 1)"
proof -
  have "\<lfloor>x\<rfloor> = k" unfolding assms by linarith
  then show ?thesis by (simp add: rhe_def Let_def assms)
qed

lemma rnd_tieI:
  assumes "2 powi e \<le> q" and "q < 2 powi (e + 1)"
    and "q * 2 powi (52 - e) = of_int k + 1 / 2"
    and "m = (if even k then k else k + 1)"
    and "r = of_int m * 2 powi (e - 52)"
  shows "rnd q = r"
proof -
  have q: "0 < q" using assms(1) p2_pos [of e] by linarith
  have "ilog2 q = e" using q assms(1,2) by (rule ilog2_unique)
  moreover have "rhe (q * 2 powi (52 - e)) = m"
    using rhe_tie [OF assms(3)] assms(4) by simp
  ultimately show ?thesis by (simp add: rnd_pos_eq [OF q] assms(5))
qed

lemma round3_eqI:
  assumes "\<bar>x * 1000 - of_int n\<bar> < 1 / 2" and "rnd (of_int n / 1000) = r"
  shows "round3 x = r"
  using rhe_near [OF assms(1)] assms(2) by (simp add: round3_def)

lemma flt_0_35: "flt 0.35 = 3152519739159347 / 9007199254740992"
  unfolding flt_def by (rule rnd_eqI [where e = "- 2" and m = "6305039478318694"]) simp_all

lemma flt_0_3: "flt 0.3 = 5404319552844595 / 18014398509481984"
  unfolding flt_def by (rule rnd_eqI [where e = "- 2" and m = "5404319552844595"]) simp_all

lemma flt_0_25: "flt 0.25 = 1 / 4"
  unfolding flt_def by (rule rnd_eqI [where e = "- 2" and m = "4503599627370496"]) simp_all

lemma flt_0_2: "flt 0.2 = 3602879701896397 / 18014398509481984"
  unfolding flt_def by (rule rnd_eqI [where e = "- 3" and m = "7205759403792794"]) simp_all

lemma flt_0_15: "flt 0.15 = 5404319552844595 / 36028797018963968"
  unfolding flt_def by (rule rnd_eqI [where e = "- 3" and m = "5404319552844595"]) simp_all

lemma flt_0_05: "flt 0.05 = 3602879701896397 / 72057594037927936"
  unfolding flt_def by (rule rnd_eqI [where e = "- 5" and m = "7205759403792794"]) simp_all

lemma flt_0_1: "flt 0.1 = 3602879701896397 / 36028797018963968"
  unfolding flt_def by (rule rnd_eqI [where e = "- 4" and m = "7205759403792794"]) simp_all

lemma flt_0_03: "flt 0.03 = 1080863910568919 / 36028797018963968"
  unfolding flt_def by (rule rnd_eqI [where e = "- 6" and m = "8646911284551352"]) simp_all

lemma flt_0_45: "flt 0.45 = 8106479329266893 / 18014398509481984"
  unfolding flt_def by (rule rnd_eqI [where e = "- 2" and m = "8106479329266893"]) simp_all

lemma flt_0_6: "flt 0.6 = 5404319552844595 / 9007199254740992"
  unfolding flt_def by (rule rnd_eqI [where e = "- 1" and m = "5404319552844595"]) simp_all

lemma flt_0_65: "flt 0.65 = 5854679515581645 / 9007199254740992"
  unfolding flt_def by (rule rnd_eqI [where e = "- 1" and m = "5854679515581645"]) simp_all

lemma flt_0_38: "flt 0.38 = 3422735716801577 / 9007199254740992"
  unfolding flt_def by (rule rnd_eqI [where e = "- 2" and m = "6845471433603154"]) simp_all

lemma fadd_val_1: "fadd 0 (3152519739159347 / 9007199254740992) = 3152519739159347 / 9007199254740992"
  unfolding fadd_def by (rule rnd_eqI [where e = "- 2" and m = "6305039478318694"]) simp_all

lemma fadd_val_2: "fadd (3152519739159347 / 9007199254740992) (3602879701896397 / 18014398509481984) = 2476979795053773 / 4503599627370496"
  unfolding fadd_def by (rule rnd_tieI [where e = "- 1" and k = "4953959590107545" and m = "4953959590107546"]) simp_all

lemma fadd_val_3: "fadd (2476979795053773 / 4503599627370496) (3602879701896397 / 72057594037927936) = 1351079888211149 / 2251799813685248"
  unfolding fadd_def by (rule rnd_eqI [where e = "- 1" and m = "5404319552844596"]) simp_all

lemma round3_val_1: "round3 (1351079888211149 / 2251799813685248) = 5404319552844595 / 9007199254740992"
  by (rule round3_eqI [where n = "600"], simp, rule rnd_eqI [where e = "- 1" and m = "5404319552844595"]) simp_all

lemma fadd_val_4: "fadd (1351079888211149 / 2251799813685248) 0 = 1351079888211149 / 2251799813685248"
  unfolding fadd_def by (rule rnd_eqI [where e = "- 1" and m = "5404319552844596"]) simp_all

lemma fadd_val_5: "fadd 0 (3602879701896397 / 18014398509481984) = 3602879701896397 / 18014398509481984"
  unfolding fadd_def by (rule rnd_eqI [where e = "- 3" and m = "7205759403792794"]) simp_all

lemma fadd_val_6: "fadd (3152519739159347 / 9007199254740992) (8106479329266893 / 18014398509481984) = 3602879701896397 / 4503599627370496"
  unfolding fadd_def by (rule rnd_tieI [where e = "- 1" and k = "7205759403792793" and m = "7205759403792794"]) simp_all

lemma fadd_val_7: "fadd (3602879701896397 / 4503599627370496) (3602879701896397 / 18014398509481984) = 1"
  unfolding fadd_def by (rule rnd_eqI [where e = "0" and m = "4503599627370496"]) simp_all

lemma fadd_val_8: "fadd 1 0 = 1"
  unfolding fadd_def by (rule rnd_eqI [where e = "0" and m = "4503599627370496"]) simp_all

lemma round3_val_2: "round3 1 = 1"
  by (rule round3_eqI [where n = "1000"], simp, rule rnd_eqI [where e = "0" and m = "4503599627370496"]) simp_all

lemma fadd_val_9: "fadd (3152519739159347 / 9007199254740992) (3602879701896397 / 72057594037927936) = 7205759403792793 / 18014398509481984"
  unfolding fadd_def by (rule rnd_eqI [where e = "- 2" and m = "7205759403792793"]) simp_all

lemma fadd_val_10: "fadd (7205759403792793 / 18014398509481984) (3602879701896397 / 18014398509481984) = 5404319552844595 / 9007199254740992"
  unfolding fadd_def by (rule rnd_eqI [where e = "- 1" and m = "5404319552844595"]) simp_all

lemma fsub_val_1: "fsub 1 (5404319552844595 / 9007199254740992) = 3602879701896397 / 9007199254740992"
  unfolding fsub_def by (rule rnd_eqI [where e = "- 2" and m = "7205759403792794"]) simp_all

lemma round3_val_3: "round3 (3602879701896397 / 9007199254740992) = 3602879701896397 / 9007199254740992"
  by (rule round3_eqI [where n = "400"], simp, rule rnd_eqI [where e = "- 2" and m = "7205759403792794"]) simp_all

lemma fadd_val_11: "fadd 0 0 = 0"
  by (simp add: fadd_def rnd_0)

lemma fadd_val_12: "fadd (3152519739159347 / 9007199254740992) 0 = 3152519739159347 / 9007199254740992"
  unfolding fadd_def by (rule rnd_eqI [where e = "- 2" and m = "6305039478318694"]) simp_all

lemma fadd_val_13: "fadd (3152519739159347 / 9007199254740992) (5404319552844595 / 18014398509481984) = 1463669878895411 / 2251799813685248"
  unfolding fadd_def by (rule rnd_tieI [where e = "- 1" and k = "5854679515581644" and m = "5854679515581644"]) simp_all

lemma fsub_val_2: "fsub (1463669878895411 / 2251799813685248) (5404319552844595 / 9007199254740992) = 450359962737049 / 9007199254740992"
  unfolding fsub_def by (rule rnd_eqI [where e = "- 5" and m = "7205759403792784"]) simp_all

lemma round3_val_4: "round3 (450359962737049 / 9007199254740992) = 3602879701896397 / 72057594037927936"
  by (rule round3_eqI [where n = "50"], simp, rule rnd_eqI [where e = "- 5" and m = "7205759403792794"]) simp_all

lemma round3_val_5: "round3 (1463669878895411 / 2251799813685248) = 5854679515581645 / 9007199254740992"
  by (rule round3_eqI [where n = "650"], simp, rule rnd_eqI [where e = "- 1" and m = "5854679515581645"]) simp_all

lemma fsub_val_3: "fsub (5854679515581645 / 9007199254740992) (5404319552844595 / 9007199254740992) = 225179981368525 / 4503599627370496"
  unfolding fsub_def by (rule rnd_eqI [where e = "- 5" and m = "7205759403792800"]) simp_all

lemma fadd_val_14: "fadd 0 (1080863910568919 / 36028797018963968) = 1080863910568919 / 36028797018963968"
  unfolding fadd_def by (rule rnd_eqI [where e = "- 6" and m = "8646911284551352"]) simp_all

lemma fadd_val_15: "fadd (1080863910568919 / 36028797018963968) (1080863910568919 / 36028797018963968) = 1080863910568919 / 18014398509481984"
  unfolding fadd_def by (rule rnd_eqI [where e = "- 5" and m = "8646911284551352"]) simp_all

lemma fadd_val_16: "fadd (1080863910568919 / 18014398509481984) (1080863910568919 / 36028797018963968) = 3242591731706757 / 36028797018963968"
  unfolding fadd_def by (rule rnd_eqI [where e = "- 4" and m = "6485183463413514"]) simp_all

lemma fadd_val_17: "fadd (3242591731706757 / 36028797018963968) (1080863910568919 / 36028797018963968) = 1080863910568919 / 9007199254740992"
  unfolding fadd_def by (rule rnd_eqI [where e = "- 4" and m = "8646911284551352"]) simp_all

lemma fadd_val_18: "fadd (1080863910568919 / 9007199254740992) (1080863910568919 / 36028797018963968) = 5404319552844595 / 36028797018963968"
  unfolding fadd_def by (rule rnd_eqI [where e = "- 3" and m = "5404319552844595"]) simp_all

lemma fadd_val_19: "fadd (5404319552844595 / 36028797018963968) (1080863910568919 / 36028797018963968) = 3242591731706757 / 18014398509481984"
  unfolding fadd_def by (rule rnd_eqI [where e = "- 3" and m = "6485183463413514"]) simp_all

lemma fadd_val_20: "fadd (3242591731706757 / 18014398509481984) (1080863910568919 / 36028797018963968) = 7566047373982433 / 36028797018963968"
  unfolding fadd_def by (rule rnd_eqI [where e = "- 3" and m = "7566047373982433"]) simp_all

lemma fadd_val_21: "fadd (7566047373982433 / 36028797018963968) (1080863910568919 / 36028797018963968) = 1080863910568919 / 4503599627370496"
  unfolding fadd_def by (rule rnd_eqI [where e = "- 3" and m = "8646911284551352"]) simp_all

lemma fadd_val_22: "fadd (1080863910568919 / 4503599627370496) (1080863910568919 / 36028797018963968) = 607985949695017 / 2251799813685248"
  unfolding fadd_def by (rule rnd_tieI [where e = "- 2" and k = "4863887597560135" and m = "4863887597560136"]) simp_all

lemma fmul_val_1: "fmul (1080863910568919 / 36028797018963968) 0 = 0"
  by (simp add: fmul_def rnd_0)

lemma fmul_val_2: "fmul (1080863910568919 / 36028797018963968) 1 = 1080863910568919 / 36028797018963968"
  unfolding fmul_def by (rule rnd_eqI [where e = "- 6" and m = "8646911284551352"]) simp_all

lemma fmul_val_3: "fmul (1080863910568919 / 36028797018963968) 2 = 1080863910568919 / 18014398509481984"
  unfolding fmul_def by (rule rnd_eqI [where e = "- 5" and m = "8646911284551352"]) simp_all

lemma fmul_val_4: "fmul (1080863910568919 / 36028797018963968) 3 = 3242591731706757 / 36028797018963968"
  unfolding fmul_def by (rule rnd_eqI [where e = "- 4" and m = "6485183463413514"]) simp_all

lemma fmul_val_5: "fmul (1080863910568919 / 36028797018963968) 4 = 1080863910568919 / 9007199254740992"
  unfolding fmul_def by (rule rnd_eqI [where e = "- 4" and m = "8646911284551352"]) simp_all

lemma fmul_val_6: "fmul (1080863910568919 / 36028797018963968) 5 = 5404319552844595 / 36028797018963968"
  unfolding fmul_def by (rule rnd_eqI [where e = "- 3" and m = "5404319552844595"]) simp_all

lemma fmul_val_7: "fmul (1080863910568919 / 36028797018963968) 6 = 3242591731706757 / 18014398509481984"
  unfolding fmul_def by (rule rnd_eqI [where e = "- 3" and m = "6485183463413514"]) simp_all

lemma fmul_val_8: "fmul (1080863910568919 / 36028797018963968) 7 = 7566047373982433 / 36028797018963968"
  unfolding fmul_def by (rule rnd_eqI [where e = "- 3" and m = "7566047373982433"]) simp_all

lemma fmul_val_9: "fmul (1080863910568919 / 36028797018963968) 8 = 1080863910568919 / 4503599627370496"
  unfolding fmul_def by (rule rnd_eqI [where e = "- 3" and m = "8646911284551352"]) simp_all

lemma fmul_val_10: "fmul (1080863910568919 / 36028797018963968) 9 = 607985949695017 / 2251799813685248"
  unfolding fmul_def by (rule rnd_tieI [where e = "- 2" and k = "4863887597560135" and m = "4863887597560136"]) simp_all

lemma fadd_val_23: "fadd (3152519739159347 / 9007199254740992) (1080863910568919 / 36028797018963968) = 3422735716801577 / 9007199254740992"
  unfolding fadd_def by (rule rnd_tieI [where e = "- 2" and k = "6845471433603153" and m = "6845471433603154"]) simp_all

lemma fadd_val_24: "fadd (3422735716801577 / 9007199254740992) 0 = 3422735716801577 / 9007199254740992"
  unfolding fadd_def by (rule rnd_eqI [where e = "- 2" and m = "6845471433603154"]) simp_all

lemma round3_val_6: "round3 (3422735716801577 / 9007199254740992) = 3422735716801577 / 9007199254740992"
  by (rule round3_eqI [where n = "380"], simp, rule rnd_eqI [where e = "- 2" and m = "6845471433603154"]) simp_all

lemma fadd_val_25: "fadd (3602879701896397 / 36028797018963968) (3602879701896397 / 18014398509481984) = 1351079888211149 / 4503599627370496"
  unfolding fadd_def by (rule rnd_tieI [where e = "- 2" and k = "5404319552844595" and m = "5404319552844596"]) simp_all

lemmas flt_values =
  flt_0_35 flt_0_3 flt_0_25 flt_0_2 flt_0_15 flt_0_05 flt_0_1 flt_0_03 flt_0_45 flt_0_6
  flt_0_65 flt_0_38

lemmas float_values =
  fadd_val_1 fadd_val_2 fadd_val_3 round3_val_1 fadd_val_4 fadd_val_5 fadd_val_6
  fadd_val_7 fadd_val_8 round3_val_2 fadd_val_9 fadd_val_10 fsub_val_1 round3_val_3
  fadd_val_11 fadd_val_12 fadd_val_13 fsub_val_2 round3_val_4 round3_val_5 fsub_val_3
  fadd_val_14 fadd_val_15 fadd_val_16 fadd_val_17 fadd_val_18 fadd_val_19 fadd_val_20
  fadd_val_21 fadd_val_22 fmul_val_1 fmul_val_2 fmul_val_3 fmul_val_4 fmul_val_5
  fmul_val_6 fmul_val_7 fmul_val_8 fmul_val_9 fmul_val_10 fadd_val_23 fadd_val_24
  round3_val_6 fadd_val_25

text \<open>
  A check of the model against the best known sum of Python: \<^verbatim>\<open>0.1 + 0.2\<close> is
  \<^verbatim>\<open>0.30000000000000004\<close>, the float above \<^verbatim>\<open>0.3\<close>.
\<close>

lemma one_tenth_plus_two_tenths:
  "fadd (flt 0.1) (flt 0.2) = 1351079888211149 / 4503599627370496 \<and>
   flt 0.3 = 5404319552844595 / 18014398509481984 \<and>
   flt 0.3 < fadd (flt 0.1) (flt 0.2)"
  unfolding flt_values by (simp add: float_values)

section \<open>The tag bonus\<close>

lemma tag_weight_table:
  "tag_weight raw =
     (let t = str_strip (str_lower raw) in
      if t = ''work'' then flt 0.1 else if t = ''home'' then flt 0.05
      else if t = ''bug'' then flt 0.2 else if t = ''feature'' then flt 0.15 else flt 0.03)"
  by (simp add: tag_weight_def TAG_WEIGHTS_def Let_def)

lemma foldl_tags:
  "foldl (\<lambda>bonus raw. fadd bonus (f raw)) a tgs = foldl fadd a (map f tgs)"
  by (induction tgs arbitrary: a) simp_all

lemma sum_replicate_Suc:
  "foldl fadd 0 (replicate (Suc k) w) = fadd (foldl fadd 0 (replicate k w)) w"
proof -
  have "replicate (Suc k) w = replicate k w @ [w]" by (simp add: replicate_append_same)
  then show ?thesis by (simp only: foldl_append) simp
qed

lemma sum_replicate_mono:
  assumes "0 \<le> w" and "k \<le> m"
  shows "foldl fadd 0 (replicate k w) \<le> foldl fadd 0 (replicate m w)"
  using assms(2)
proof (induction m)
  case 0
  then show ?case by simp
next
  case (Suc m)
  show ?case
  proof (cases "k = Suc m")
    case True
    then show ?thesis by simp
  next
    case False
    then have "foldl fadd 0 (replicate k w) \<le> foldl fadd 0 (replicate m w)"
      using Suc by simp
    also have "\<dots> \<le> fadd (foldl fadd 0 (replicate m w)) w"
      using assms(1) by (intro fadd_increasing is_float_sum is_float_0)
    finally show ?thesis by (simp only: sum_replicate_Suc)
  qed
qed

lemma unknown_tags_small:
  "foldl fadd 0 (replicate 0 (flt 0.03)) = fmul (flt 0.03) (of_nat 0)"
  "foldl fadd 0 (replicate 1 (flt 0.03)) = fmul (flt 0.03) (of_nat 1)"
  "foldl fadd 0 (replicate 2 (flt 0.03)) = fmul (flt 0.03) (of_nat 2)"
  "foldl fadd 0 (replicate 3 (flt 0.03)) = fmul (flt 0.03) (of_nat 3)"
  "foldl fadd 0 (replicate 4 (flt 0.03)) = fmul (flt 0.03) (of_nat 4)"
  "foldl fadd 0 (replicate 5 (flt 0.03)) = fmul (flt 0.03) (of_nat 5)"
  "foldl fadd 0 (replicate 6 (flt 0.03)) = fmul (flt 0.03) (of_nat 6)"
  "foldl fadd 0 (replicate 7 (flt 0.03)) = fmul (flt 0.03) (of_nat 7)"
  "foldl fadd 0 (replicate 8 (flt 0.03)) = fmul (flt 0.03) (of_nat 8)"
  unfolding flt_values by (simp_all add: eval_nat_numeral float_values)

lemma unknown_tags_nine:
  "flt 0.25 \<le> foldl fadd 0 (replicate 9 (flt 0.03))"
  "flt 0.25 \<le> fmul (flt 0.03) (of_nat 9)"
  unfolding flt_values by (simp_all add: eval_nat_numeral float_values)

lemma unknown_tags_sum:
  "min (foldl fadd 0 (replicate k (flt 0.03))) (flt 0.25) =
   min (fmul (flt 0.03) (of_nat k)) (flt 0.25)"
proof (cases "k \<le> 8")
  case True
  then have "k \<in> {0, 1, 2, 3, 4, 5, 6, 7, 8}" by auto
  then show ?thesis using unknown_tags_small by auto
next
  case False
  then have k: "9 \<le> k" by simp
  have w: "(0::rat) \<le> flt 0.03" by (rule flt_nonneg) simp
  have "foldl fadd 0 (replicate 9 (flt 0.03)) \<le> foldl fadd 0 (replicate k (flt 0.03))"
    using w k by (rule sum_replicate_mono)
  then have 1: "flt 0.25 \<le> foldl fadd 0 (replicate k (flt 0.03))"
    using unknown_tags_nine(1) by simp
  have "flt 0.03 * of_nat 9 \<le> flt 0.03 * (of_nat k :: rat)"
    using w k by (intro mult_left_mono) simp_all
  then have "fmul (flt 0.03) (of_nat 9) \<le> fmul (flt 0.03) (of_nat k)"
    unfolding fmul_def by (rule rnd_mono)
  then have 2: "flt 0.25 \<le> fmul (flt 0.03) (of_nat k)"
    using unknown_tags_nine(2) by simp
  show ?thesis using 1 2 by (simp add: min_def)
qed

lemma tag_bonus_sum:
  "tag_bonus tgs = (if tgs = [] then 0 else min (flt 0.25) (foldl fadd 0 (map tag_weight tgs)))"
  by (simp add: tag_bonus_def foldl_tags [where f = tag_weight] min.commute)

lemma tag_bonus_unknown:
  assumes "\<forall>raw\<in>set tgs. str_strip (str_lower raw) \<notin> {''work'', ''home'', ''bug'', ''feature''}"
  shows "tag_bonus tgs = min (fmul (flt 0.03) (of_nat (length tgs))) (flt 0.25)"
proof -
  have "\<forall>raw\<in>set tgs. tag_weight raw = flt 0.03"
    using assms by (simp add: tag_weight_table Let_def)
  then have m: "map tag_weight tgs = replicate (length tgs) (flt 0.03)"
    by (simp add: map_replicate_const [symmetric] cong: map_cong)
  show ?thesis
  proof (cases "tgs = []")
    case True
    have "(0::rat) \<le> flt 0.25" by (rule flt_nonneg) simp
    then show ?thesis using True by (simp add: tag_bonus_def fmul_def rnd_0)
  next
    case False
    then show ?thesis
      using unknown_tags_sum [of "length tgs"] by (simp add: tag_bonus_sum m min.commute)
  qed
qed

section \<open>The examples, evaluated\<close>

lemma urgent_call_keywords:
  "str_in ''urgent'' (str_lower ''URGENT: call client today'')"
  "\<not> str_in ''asap'' (str_lower ''URGENT: call client today'')"
  "\<not> str_in ''important'' (str_lower ''URGENT: call client today'')"
  "str_in ''today'' (str_lower ''URGENT: call client today'')"
  "\<not> str_in ''tomorrow'' (str_lower ''URGENT: call client today'')"
  "\<not> str_in ''email'' (str_lower ''URGENT: call client today'')"
  "str_in ''call'' (str_lower ''URGENT: call client today'')"
  "length (str_split ''URGENT: call client today'') = 4"
  by code_simp+

lemma urgent_call_keyword_bonus:
  "keyword_bonus ''URGENT: call client today'' = flt 0.45"
proof -
  have "keyword_bonus ''URGENT: call client today'' =
      min (flt 0.45) (fadd (fadd (fadd (fadd 0 (flt 0.35)) (flt 0.2)) (flt 0.05)) 0)"
    by (simp add: keyword_bonus_sum KEYWORD_WEIGHTS_def urgent_call_keywords)
  also have "\<dots> = flt 0.45"
    unfolding flt_values by (simp add: float_values)
  finally show ?thesis .
qed

lemma bug_tag_bonus: "tag_bonus [''bug''] = flt 0.2"
proof -
  have "str_strip (str_lower ''bug'') = ''bug''" by code_simp
  then have "tag_bonus [''bug''] = min (flt 0.25) (fadd 0 (flt 0.2))"
    by (simp add: tag_bonus_sum tag_weight_table)
  also have "\<dots> = flt 0.2"
    unfolding flt_values by (simp add: float_values)
  finally show ?thesis .
qed

lemma plan_trip_keywords:
  "\<not> str_in ''urgent'' (str_lower ''plan trip'')"
  "\<not> str_in ''asap'' (str_lower ''plan trip'')"
  "\<not> str_in ''important'' (str_lower ''plan trip'')"
  "\<not> str_in ''today'' (str_lower ''plan trip'')"
  "\<not> str_in ''tomorrow'' (str_lower ''plan trip'')"
  "\<not> str_in ''email'' (str_lower ''plan trip'')"
  "\<not> str_in ''call'' (str_lower ''plan trip'')"
  "length (str_split ''plan trip'') = 2"
  by code_simp+

lemma plan_trip_keyword_bonus: "keyword_bonus ''plan trip'' = 0"
proof -
  have "keyword_bonus ''plan trip'' = min (flt 0.45) (fadd 0 0)"
    by (simp add: keyword_bonus_sum KEYWORD_WEIGHTS_def plan_trip_keywords)
  also have "\<dots> = 0"
    unfolding flt_values by (simp add: float_values)
  finally show ?thesis .
qed

lemma plan_trip_pre:
  "pre_completion_score \<lparr>TodoFeatures.title = ''plan trip'', completed = True, created_at = None,
      due_date = Some \<lparr>wall = 0, utcoffset = None\<rparr>, tags = []\<rparr> 0 3600000000 =
   Inr (fadd (fadd (fadd (fadd (flt 0.35) 0) 0) 0) (flt 0.3))"
  by (simp add: pre_completion_score_def plan_trip_keyword_bonus tag_bonus_def age_bonus_def
      normalize_dt_def due_date_bonus_exact)

lemma completed_score:
  "TodoFeatures.completed f \<Longrightarrow>
   priority_score f n1 n2 =
     (case pre_completion_score f n1 n2 of
        Inl e \<Rightarrow> Inl e
      | Inr pre \<Rightarrow> Inr (max 0 (min 1 (round3 (fsub pre (flt 0.6))))))"
  by (simp add: priority_score_def pre_completion_score_def Let_def split: sum.splits)

lemma x_keywords:
  "\<not> str_in ''urgent'' (str_lower ''x'')"
  "\<not> str_in ''asap'' (str_lower ''x'')"
  "\<not> str_in ''important'' (str_lower ''x'')"
  "\<not> str_in ''today'' (str_lower ''x'')"
  "\<not> str_in ''tomorrow'' (str_lower ''x'')"
  "\<not> str_in ''email'' (str_lower ''x'')"
  "\<not> str_in ''call'' (str_lower ''x'')"
  "length (str_split ''x'') = 1"
  by code_simp+

lemma x_keyword_bonus: "keyword_bonus ''x'' = 0"
proof -
  have "keyword_bonus ''x'' = min (flt 0.45) (fadd 0 0)"
    by (simp add: keyword_bonus_sum KEYWORD_WEIGHTS_def x_keywords)
  also have "\<dots> = 0"
    unfolding flt_values by (simp add: float_values)
  finally show ?thesis .
qed

lemma blank_tag_bonus: "tag_bonus [''''] = flt 0.03"
proof -
  have "str_strip (str_lower '''') = ''''" by code_simp
  then have "tag_bonus [''''] = min (flt 0.25) (fadd 0 (flt 0.03))"
    by (simp add: tag_bonus_sum tag_weight_table)
  also have "\<dots> = flt 0.03"
    unfolding flt_values by (simp add: float_values)
  finally show ?thesis .
qed

lemma blank_tag_priority:
  "priority_score \<lparr>TodoFeatures.title = ''x'', completed = False, created_at = None,
      due_date = None, tags = ['''']\<rparr> n1 n2 = Inr (flt 0.38)"
proof -
  have "priority_score \<lparr>TodoFeatures.title = ''x'', completed = False, created_at = None,
      due_date = None, tags = ['''']\<rparr> n1 n2 =
      Inr (max 0 (min 1 (round3 (fadd (fadd (fadd (fadd (flt 0.35) 0) (flt 0.03)) 0) 0))))"
    by (simp add: priority_score_def Let_def x_keyword_bonus blank_tag_bonus
        age_bonus_def due_date_bonus_def normalize_dt_def)
  also have "\<dots> = Inr (flt 0.38)"
    unfolding flt_values by (simp add: float_values)
  finally show ?thesis .
qed

lemma empty_tag_score:
  "score clock [\<lparr>TodoPayload.title = ''x'', completed = False, created_at = None,
      due_date = None, tags = ['''']\<rparr>] =
   Inr [\<lparr>TodoPayload.title = ''x'', completed = False, created_at = None, due_date = None,
         tags = [], ScoreResult.priority_score = flt 0.38\<rparr>]"
  by (simp add: score_def ScoreResult_init_def normalize_tags_def blank_tag_priority)

section \<open>The tag validator and the handler\<close>

text \<open>
  On tags that are trimmed and non-empty the validator is the identity, it never makes a
  list longer, and the handler returns one result for each record of a non-empty batch of
  validated records whose timestamps normalize, in order, with the title, the flag and the
  two timestamps of the record, the tags as the validator returns them, and the score of
  the record.
\<close>

lemma normalize_loop_clean:
  assumes "\<forall>t\<in>set tgs. t \<noteq> [] \<and> str_strip t = t"
  shows "foldl (\<lambda>tgs item. if \<not> py_bool item then tgs else tgs @ [str_strip (py_str item)])
           acc (map PStr tgs) = acc @ tgs"
  using assms by (induction tgs arbitrary: acc) simp_all

lemma normalize_tags_clean:
  "\<forall>t\<in>set tgs. t \<noteq> [] \<and> str_strip t = t \<Longrightarrow> normalize_tags (RSeq (map PStr tgs)) = tgs"
  using normalize_loop_clean [of tgs "[]"] by (simp add: normalize_tags_def)

lemma normalize_loop_length:
  "length (foldl (\<lambda>tgs item. if \<not> py_bool item then tgs else tgs @ [str_strip (py_str item)])
           acc items) \<le> length acc + length items"
proof (induction items arbitrary: acc)
  case Nil
  then show ?case by simp
next
  case (Cons item items)
  show ?case
    using Cons [of acc] Cons [of "acc @ [str_strip (py_str item)]"] by simp
qed

lemma normalize_tags_length: "length (normalize_tags (RSeq items)) \<le> length items"
  using normalize_loop_length [of "[]" items] by (simp add: normalize_tags_def)

lemma score_loop_results:
  assumes "\<forall>t\<in>set todos. 1 \<le> length (TodoPayload.title t) \<and> length (TodoPayload.title t) \<le> 200 \<and>
             length (TodoPayload.tags t) \<le> 20 \<and>
             utc_in_range (TodoPayload.created_at t) \<and> utc_in_range (TodoPayload.due_date t)"
  shows "\<exists>rs. score_loop clock i acc todos = Inr (acc @ rs) \<and> length rs = length todos \<and>
     (\<forall>j<length todos.
        TodoPayload.title (rs ! j) = TodoPayload.title (todos ! j) \<and>
        TodoPayload.completed (rs ! j) = TodoPayload.completed (todos ! j) \<and>
        TodoPayload.created_at (rs ! j) = TodoPayload.created_at (todos ! j) \<and>
        TodoPayload.due_date (rs ! j) = TodoPayload.due_date (todos ! j) \<and>
        TodoPayload.tags (rs ! j) = normalize_tags (RSeq (map PStr (TodoPayload.tags (todos ! j)))) \<and>
        Inr (ScoreResult.priority_score (rs ! j)) =
          priority_score \<lparr>TodoFeatures.title = TodoPayload.title (todos ! j),
              completed = TodoPayload.completed (todos ! j),
              created_at = TodoPayload.created_at (todos ! j),
              due_date = TodoPayload.due_date (todos ! j),
              tags = TodoPayload.tags (todos ! j)\<rparr>
            (fst (clock (i + j))) (snd (clock (i + j))))"
  using assms
proof (induction todos arbitrary: i acc)
  case Nil
  then show ?case by simp
next
  case (Cons todo todos)
  obtain x where ps: "priority_score \<lparr>TodoFeatures.title = TodoPayload.title todo,
              completed = TodoPayload.completed todo,
              created_at = TodoPayload.created_at todo,
              due_date = TodoPayload.due_date todo,
              tags = TodoPayload.tags todo\<rparr> (fst (clock i)) (snd (clock i)) =
            Inr (max 0 (min 1 (round3 x)))"
    using priority_score_clamped [of "\<lparr>TodoFeatures.title = TodoPayload.title todo,
              completed = TodoPayload.completed todo,
              created_at = TodoPayload.created_at todo,
              due_date = TodoPayload.due_date todo,
              tags = TodoPayload.tags todo\<rparr>" "fst (clock i)" "snd (clock i)"] Cons.prems
    by auto
  let ?ps = "max 0 (min 1 (round3 x))"
  let ?r = "\<lparr>TodoPayload.title = TodoPayload.title todo,
              completed = TodoPayload.completed todo,
              created_at = TodoPayload.created_at todo,
              due_date = TodoPayload.due_date todo,
              tags = normalize_tags (RSeq (map PStr (TodoPayload.tags todo))),
              ScoreResult.priority_score = ?ps\<rparr>"
  have len: "length (normalize_tags (RSeq (map PStr (TodoPayload.tags todo)))) \<le> 20"
    using normalize_tags_length [of "map PStr (TodoPayload.tags todo)"] Cons.prems by simp
  have init: "ScoreResult_init (TodoPayload.title todo) (TodoPayload.completed todo)
                (TodoPayload.created_at todo) (TodoPayload.due_date todo)
                (RSeq (map PStr (TodoPayload.tags todo))) ?ps = Inr ?r"
    using len Cons.prems by (auto simp: ScoreResult_init_def Let_def)
  have rest: "\<forall>t\<in>set todos. 1 \<le> length (TodoPayload.title t) \<and> length (TodoPayload.title t) \<le> 200 \<and>
             length (TodoPayload.tags t) \<le> 20 \<and>
             utc_in_range (TodoPayload.created_at t) \<and> utc_in_range (TodoPayload.due_date t)"
    using Cons.prems by simp
  from Cons.IH [OF rest, of "Suc i" "acc @ [?r]"]
  obtain rs where rs: "score_loop clock (Suc i) (acc @ [?r]) todos = Inr ((acc @ [?r]) @ rs)"
    "length rs = length todos"
    "\<forall>j<length todos.
        TodoPayload.title (rs ! j) = TodoPayload.title (todos ! j) \<and>
        TodoPayload.completed (rs ! j) = TodoPayload.completed (todos ! j) \<and>
        TodoPayload.created_at (rs ! j) = TodoPayload.created_at (todos ! j) \<and>
        TodoPayload.due_date (rs ! j) = TodoPayload.due_date (todos ! j) \<and>
        TodoPayload.tags (rs ! j) = normalize_tags (RSeq (map PStr (TodoPayload.tags (todos ! j)))) \<and>
        Inr (ScoreResult.priority_score (rs ! j)) =
          priority_score \<lparr>TodoFeatures.title = TodoPayload.title (todos ! j),
              completed = TodoPayload.completed (todos ! j),
              created_at = TodoPayload.created_at (todos ! j),
              due_date = TodoPayload.due_date (todos ! j),
              tags = TodoPayload.tags (todos ! j)\<rparr>
            (fst (clock (Suc i + j))) (snd (clock (Suc i + j)))"
    by blast
  have run: "score_loop clock i acc (todo # todos) = Inr (acc @ (?r # rs))"
    using init rs(1) ps by (simp add: Let_def)
  show ?case
  proof (intro exI conjI allI impI)
    show "score_loop clock i acc (todo # todos) = Inr (acc @ (?r # rs))" by (rule run)
    show "length (?r # rs) = length (todo # todos)" using rs(2) by simp
  next
    fix j assume j: "j < length (todo # todos)"
    show "TodoPayload.title ((?r # rs) ! j) = TodoPayload.title ((todo # todos) ! j)"
      using j rs(3) by (cases j) simp_all
    show "TodoPayload.completed ((?r # rs) ! j) = TodoPayload.completed ((todo # todos) ! j)"
      using j rs(3) by (cases j) simp_all
    show "TodoPayload.created_at ((?r # rs) ! j) = TodoPayload.created_at ((todo # todos) ! j)"
      using j rs(3) by (cases j) simp_all
    show "TodoPayload.due_date ((?r # rs) ! j) = TodoPayload.due_date ((todo # todos) ! j)"
      using j rs(3) by (cases j) simp_all
    show "TodoPayload.tags ((?r # rs) ! j) =
        normalize_tags (RSeq (map PStr (TodoPayload.tags ((todo # todos) ! j))))"
      using j rs(3) by (cases j) simp_all
    show "Inr (ScoreResult.priority_score ((?r # rs) ! j)) =
          priority_score \<lparr>TodoFeatures.title = TodoPayload.title ((todo # todos) ! j),
              completed = TodoPayload.completed ((todo # todos) ! j),
              created_at = TodoPayload.created_at ((todo # todos) ! j),
              due_date = TodoPayload.due_date ((todo # todos) ! j),
              tags = TodoPayload.tags ((todo # todos) ! j)\<rparr>
            (fst (clock (i + j))) (snd (clock (i + j)))"
      using j rs(3) ps by (cases j) simp_all
  qed
qed

lemma score_results:
  assumes "todos \<noteq> []"
    and "\<forall>t\<in>set todos. 1 \<le> length (TodoPayload.title t) \<and> length (TodoPayload.title t) \<le> 200 \<and>
             length (TodoPayload.tags t) \<le> 20 \<and>
             utc_in_range (TodoPayload.created_at t) \<and> utc_in_range (TodoPayload.due_date t)"
  shows "\<exists>rs. score clock todos = Inr rs \<and> length rs = length todos \<and>
     (\<forall>j<length todos.
        TodoPayload.title (rs ! j) = TodoPayload.title (todos ! j) \<and>
        TodoPayload.completed (rs ! j) = TodoPayload.completed (todos ! j) \<and>
        TodoPayload.created_at (rs ! j) = TodoPayload.created_at (todos ! j) \<and>
        TodoPayload.due_date (rs ! j) = TodoPayload.due_date (todos ! j) \<and>
        TodoPayload.tags (rs ! j) = normalize_tags (RSeq (map PStr (TodoPayload.tags (todos ! j)))) \<and>
        Inr (ScoreResult.priority_score (rs ! j)) =
          priority_score \<lparr>TodoFeatures.title = TodoPayload.title (todos ! j),
              completed = TodoPayload.completed (todos ! j),
              created_at = TodoPayload.created_at (todos ! j),
              due_date = TodoPayload.due_date (todos ! j),
              tags = TodoPayload.tags (todos ! j)\<rparr>
            (fst (clock j)) (snd (clock j)))"
  using score_loop_results [OF assms(2), of clock 0 "[]"] assms(1) by (simp add: score_def)

lemma score_empty: "score clock [] = Inl (HTTPException 400 ''at least one todo is required'')"
  by (simp add: score_def)

section \<open>The claims\<close>




text \<open>
  C2, as stated: for completed features the final score is \<open>max(0, r - 0.60)\<close> clamped to
  \<open>[0, 1]\<close>, with \<open>r\<close> the pre-completion sum rounded to three decimals.  The source
  subtracts the penalty from the unrounded sum and rounds afterwards, and in floats the two
  orders differ: for the overdue, completed item with the title \<^verbatim>\<open>plan trip\<close> the source
  returns \<open>0.05\<close>, the stated formula \<open>0.65 - 0.6 = 0.050000000000000044\<close>.
\<close>

theorem penalty_after_rounding_counterexample:
  "priority_score \<lparr>TodoFeatures.title = ''plan trip'', completed = True, created_at = None,
      due_date = Some \<lparr>wall = 0, utcoffset = None\<rparr>, tags = []\<rparr> 0 3600000000 = Inr (flt 0.05) \<and>
   priority_score \<lparr>TodoFeatures.title = ''plan trip'', completed = True, created_at = None,
      due_date = Some \<lparr>wall = 0, utcoffset = None\<rparr>, tags = []\<rparr> 0 3600000000 \<noteq>
   (case pre_completion_score \<lparr>TodoFeatures.title = ''plan trip'', completed = True, created_at = None,
      due_date = Some \<lparr>wall = 0, utcoffset = None\<rparr>, tags = []\<rparr> 0 3600000000 of
      Inl e \<Rightarrow> Inl e
    | Inr r \<Rightarrow> Inr (max 0 (min 1 (max 0 (fsub (round3 r) (flt 0.6))))))"
proof -
  have "priority_score \<lparr>TodoFeatures.title = ''plan trip'', completed = True, created_at = None,
      due_date = Some \<lparr>wall = 0, utcoffset = None\<rparr>, tags = []\<rparr> 0 3600000000 =
      Inr (max 0 (min 1 (round3 (fsub (fadd (fadd (fadd (fadd (flt 0.35) 0) 0) 0) (flt 0.3)) (flt 0.6)))))"
    by (simp add: completed_score plan_trip_pre)
  also have "\<dots> = Inr (3602879701896397 / 72057594037927936)"
    unfolding flt_values by (simp add: float_values)
  finally have code: "priority_score \<lparr>TodoFeatures.title = ''plan trip'', completed = True, created_at = None,
      due_date = Some \<lparr>wall = 0, utcoffset = None\<rparr>, tags = []\<rparr> 0 3600000000 =
      Inr (3602879701896397 / 72057594037927936)" .
  have formula: "max 0 (min 1 (max 0 (fsub (round3 (fadd (fadd (fadd (fadd (flt 0.35) 0) 0) 0)
      (flt 0.3))) (flt 0.6)))) = (225179981368525 / 4503599627370496 :: rat)"
    unfolding flt_values by (simp add: float_values)
  show ?thesis
    unfolding code plan_trip_pre flt_0_05 by (simp only: sum.case formula) simp
qed

text \<open>
  C2, amended: for completed features the final score is the pre-completion sum minus
  \<open>0.60\<close>, rounded to three decimals and then clamped to \<open>[0, 1]\<close>.  The penalty is applied
  after all four bonuses and before the rounding and the clamping.  Where a normalization
  raises, the score and the sum raise alike.
\<close>

theorem penalty_before_rounding:
  assumes "TodoFeatures.completed f"
  shows "priority_score f now1 now2 =
     (case pre_completion_score f now1 now2 of
        Inl e \<Rightarrow> Inl e
      | Inr pre \<Rightarrow> Inr (max 0 (min 1 (round3 (fsub pre (flt 0.6))))))"
  using assms by (rule completed_score)

theorem penalty_before_rounding_witness:
  "priority_score \<lparr>TodoFeatures.title = ''plan trip'', completed = True, created_at = None,
      due_date = Some \<lparr>wall = 0, utcoffset = None\<rparr>, tags = []\<rparr> 0 3600000000 =
     (case pre_completion_score \<lparr>TodoFeatures.title = ''plan trip'', completed = True, created_at = None,
      due_date = Some \<lparr>wall = 0, utcoffset = None\<rparr>, tags = []\<rparr> 0 3600000000 of
        Inl e \<Rightarrow> Inl e
      | Inr pre \<Rightarrow> Inr (max 0 (min 1 (round3 (fsub pre (flt 0.6))))))"
  by (rule penalty_before_rounding) simp

text \<open>
  C3.  For normalized optional timestamps and every instant \<open>now\<close> (all in microseconds):
  the age bonus is 0 without a creation time, else 0.05, 0.10, 0.15 or 0.20 as the elapsed
  hours are at most 24, at most 72, at most 168, or more; the due-date bonus is 0 without a
  due date, else 0.30, 0.25, 0.20, 0.10 or 0.05 as the remaining hours are at most 0, 24, 72,
  168, or more.  The first threshold that holds wins, and exactly 0, 24, 72 and 168 hours
  fall into the lower bucket.  The hours are the exact quotient of the microseconds by
  3600000000.
\<close>

theorem time_bonus_steps:
  "age_bonus now None = 0 \<and>
   age_bonus now (Some c) =
     (let h = of_int (now - c) / 3600000000 :: rat in
      if h \<le> 24 then flt 0.05 else if h \<le> 72 then flt 0.1
      else if h \<le> 168 then flt 0.15 else flt 0.2) \<and>
   due_date_bonus now None = 0 \<and>
   due_date_bonus now (Some d) =
     (let h = of_int (d - now) / 3600000000 :: rat in
      if h \<le> 0 then flt 0.3 else if h \<le> 24 then flt 0.25 else if h \<le> 72 then flt 0.2
      else if h \<le> 168 then flt 0.1 else flt 0.05) \<and>
   age_bonus (c + 24 * 3600000000) (Some c) = flt 0.05 \<and>
   age_bonus (c + 72 * 3600000000) (Some c) = flt 0.1 \<and>
   age_bonus (c + 168 * 3600000000) (Some c) = flt 0.15 \<and>
   due_date_bonus now (Some now) = flt 0.3 \<and>
   due_date_bonus now (Some (now + 24 * 3600000000)) = flt 0.25 \<and>
   due_date_bonus now (Some (now + 72 * 3600000000)) = flt 0.2 \<and>
   due_date_bonus now (Some (now + 168 * 3600000000)) = flt 0.1"
proof -
  have 1: "age_bonus now None = 0" by (simp add: age_bonus_def)
  have 2: "due_date_bonus now None = 0" by (simp add: due_date_bonus_def)
  have 3: "age_bonus (c + 24 * 3600000000) (Some c) = flt 0.05"
    "age_bonus (c + 72 * 3600000000) (Some c) = flt 0.1"
    "age_bonus (c + 168 * 3600000000) (Some c) = flt 0.15"
    by (simp_all add: age_bonus_exact)
  have 4: "due_date_bonus now (Some now) = flt 0.3"
    "due_date_bonus now (Some (now + 24 * 3600000000)) = flt 0.25"
    "due_date_bonus now (Some (now + 72 * 3600000000)) = flt 0.2"
    "due_date_bonus now (Some (now + 168 * 3600000000)) = flt 0.1"
    by (simp_all add: due_date_bonus_exact)
  show ?thesis
    using 1 2 3 4 age_bonus_exact [of now c] due_date_bonus_exact [of now d] by blast
qed

theorem time_bonus_steps_witness:
  "age_bonus 86400000001 (Some 0) = flt 0.1 \<and>
   age_bonus 86400000000 (Some 0) = flt 0.05 \<and>
   due_date_bonus 86400000001 (Some 86400000002) = flt 0.25 \<and>
   due_date_bonus 86400000000 (Some 86400000000) = flt 0.3"
  using time_bonus_steps [of 86400000001 0 86400000002] time_bonus_steps [of 86400000000 0 86400000000]
  by simp

text \<open>
  C4.  The keyword bonus of a title is \<open>min(0.45, S + L)\<close>: \<open>S\<close> is the float sum, in the order
  of the table, of the weights urgent 0.35, asap 0.30, important 0.25, today 0.20,
  tomorrow 0.15, email 0.05, call 0.05 of the keywords that occur as substrings of the
  lower-cased title, each once, and \<open>L\<close> is 0.05 when the title has at least 8
  white-space separated words, else 0.
\<close>

theorem keyword_bonus_formula:
  "keyword_bonus ttl =
     min (flt 0.45)
       (fadd
          (foldl fadd 0 (map snd (filter (\<lambda>kw. str_in (fst kw) (str_lower ttl))
             [(''urgent'', flt 0.35), (''asap'', flt 0.3), (''important'', flt 0.25),
              (''today'', flt 0.2), (''tomorrow'', flt 0.15), (''email'', flt 0.05),
              (''call'', flt 0.05)])))
          (if 8 \<le> length (str_split ttl) then flt 0.05 else 0))"
  unfolding keyword_bonus_sum KEYWORD_WEIGHTS_def by (rule refl)

theorem keyword_bonus_formula_witness:
  "keyword_bonus ''Call me today or tomorrow, it is urgent!'' =
     min (flt 0.45)
       (fadd (foldl fadd 0 [flt 0.35, flt 0.2, flt 0.15, flt 0.05]) (flt 0.05))"
proof -
  have "str_lower ''Call me today or tomorrow, it is urgent!'' = ''call me today or tomorrow, it is urgent!''"
    by code_simp
  moreover have "length (str_split ''Call me today or tomorrow, it is urgent!'') = 8"
    by code_simp
  ultimately show ?thesis
    using keyword_bonus_formula [of "''Call me today or tomorrow, it is urgent!''"] by simp
qed

text \<open>
  C5.  The tag bonus of the empty sequence is 0.  Otherwise every tag, lower-cased and
  stripped, contributes its weight work 0.10, home 0.05, bug 0.20, feature 0.15, or 0.03
  when it is none of these; the contributions are summed in order, duplicates included, and
  the sum is capped at 0.25.  For \<open>k\<close> tags that are all unknown the bonus is
  \<open>min(0.03 * k, 0.25)\<close>, the product taken in floats.
\<close>

theorem tag_bonus_formula:
  "tag_bonus [] = 0 \<and>
   (tgs \<noteq> [] \<longrightarrow>
      tag_bonus tgs =
        min (flt 0.25)
          (foldl fadd 0 (map (\<lambda>raw. let t = str_strip (str_lower raw) in
              if t = ''work'' then flt 0.1 else if t = ''home'' then flt 0.05
              else if t = ''bug'' then flt 0.2 else if t = ''feature'' then flt 0.15
              else flt 0.03) tgs))) \<and>
   ((\<forall>raw\<in>set tgs. str_strip (str_lower raw) \<notin> {''work'', ''home'', ''bug'', ''feature''}) \<longrightarrow>
      tag_bonus tgs = min (fmul (flt 0.03) (of_nat (length tgs))) (flt 0.25))"
proof -
  have "(\<lambda>raw. let t = str_strip (str_lower raw) in
              if t = ''work'' then flt 0.1 else if t = ''home'' then flt 0.05
              else if t = ''bug'' then flt 0.2 else if t = ''feature'' then flt 0.15
              else flt 0.03) = tag_weight"
    by (rule ext) (simp only: tag_weight_table)
  then show ?thesis
    using tag_bonus_unknown [of tgs] by (simp add: tag_bonus_sum)
qed

theorem tag_bonus_formula_witness:
  "tag_bonus [] = 0 \<and>
   tag_bonus [''Urgent'', '' misc '', ''Urgent''] =
     min (flt 0.25) (foldl fadd 0 [flt 0.03, flt 0.03, flt 0.03]) \<and>
   tag_bonus [''Urgent'', '' misc '', ''Urgent''] = min (fmul (flt 0.03) (of_nat 3)) (flt 0.25)"
proof -
  have s: "str_strip (str_lower ''Urgent'') = ''urgent''" "str_strip (str_lower '' misc '') = ''misc''"
    by code_simp+
  show ?thesis
    using tag_bonus_formula [of "[''Urgent'', '' misc '', ''Urgent'']"] by (simp add: s)
qed

text \<open>
  C6.  For the title \<^verbatim>\<open>URGENT: call client today\<close>, not completed, the one tag \<^verbatim>\<open>bug\<close>, no
  timestamps, and any reading of the clock: the keywords urgent, today and call match; their
  weights \<open>0.35 + 0.05 + 0.20\<close> make \<open>0.60\<close>, and the running sum of the source exceeds the cap,
  so the keyword bonus is \<open>0.45\<close>; the tag bonus is \<open>0.20\<close>; the final score is exactly \<open>1\<close>.
\<close>

theorem example_urgent_call_client:
  "map fst (filter (\<lambda>kw. str_in (fst kw) (str_lower ''URGENT: call client today''))
      KEYWORD_WEIGHTS) = [''urgent'', ''today'', ''call''] \<and>
   fadd (fadd (flt 0.35) (flt 0.05)) (flt 0.2) = flt 0.6 \<and>
   flt 0.45 < fadd (fadd (fadd 0 (flt 0.35)) (flt 0.2)) (flt 0.05) \<and>
   keyword_bonus ''URGENT: call client today'' = flt 0.45 \<and>
   tag_bonus [''bug''] = flt 0.2 \<and>
   priority_score \<lparr>TodoFeatures.title = ''URGENT: call client today'', completed = False,
      created_at = None, due_date = None, tags = [''bug'']\<rparr> now1 now2 = Inr 1"
proof -
  have 1: "map fst (filter (\<lambda>kw. str_in (fst kw) (str_lower ''URGENT: call client today''))
      KEYWORD_WEIGHTS) = [''urgent'', ''today'', ''call'']"
    by (simp add: KEYWORD_WEIGHTS_def urgent_call_keywords)
  have 2: "fadd (fadd (flt 0.35) (flt 0.05)) (flt 0.2) = flt 0.6"
    unfolding flt_values by (simp add: float_values)
  have 3: "flt 0.45 < fadd (fadd (fadd 0 (flt 0.35)) (flt 0.2)) (flt 0.05)"
    unfolding flt_values by (simp add: float_values)
  have "priority_score \<lparr>TodoFeatures.title = ''URGENT: call client today'', completed = False,
      created_at = None, due_date = None, tags = [''bug'']\<rparr> now1 now2 =
      Inr (max 0 (min 1 (round3 (fadd (fadd (fadd (fadd (flt 0.35) (flt 0.45)) (flt 0.2)) 0) 0))))"
    by (simp add: priority_score_def Let_def urgent_call_keyword_bonus bug_tag_bonus
        age_bonus_def due_date_bonus_def normalize_dt_def)
  also have "\<dots> = Inr 1"
    unfolding flt_values by (simp add: float_values)
  finally show ?thesis
    using 1 2 3 urgent_call_keyword_bonus bug_tag_bonus by blast
qed

text \<open>
  C7.  The claim: \<open>normalize_tags\<close> returns trimmed, non-empty tokens only.  The source tests
  an entry for emptiness before it strips it, and wraps a bare string as it is: a blank
  entry comes out as the empty token, a bare string untrimmed, and the empty bare string
  as the empty token.
\<close>

theorem normalize_tags_blank_tokens:
  "normalize_tags (RSeq [PStr ''  '']) = [''''] \<and>
   normalize_tags (RStr '' a '') = ['' a ''] \<and>
   normalize_tags (RStr '''') = ['''']"
  by code_simp

text \<open>
  C8.  If every keyword that occurs in the lower-cased first title occurs in the lower-cased
  second one, and the second title has at least 8 words whenever the first has, then the
  keyword bonus of the first is at most that of the second; and no keyword bonus exceeds
  0.45.
\<close>

theorem keyword_bonus_monotone:
  assumes "\<forall>k\<in>set (map fst KEYWORD_WEIGHTS). str_in k (str_lower t1) \<longrightarrow> str_in k (str_lower t2)"
    and "8 \<le> length (str_split t1) \<longrightarrow> 8 \<le> length (str_split t2)"
  shows "keyword_bonus t1 \<le> keyword_bonus t2 \<and> keyword_bonus t \<le> flt 0.45"
  using keyword_bonus_mono [OF assms] keyword_bonus_cap [of t] by simp

theorem keyword_bonus_monotone_witness:
  "keyword_bonus ''call Bob'' \<le> keyword_bonus ''Recall the email'' \<and>
   keyword_bonus ''URGENT asap'' \<le> flt 0.45"
proof -
  have h1: "\<forall>k\<in>set (map fst KEYWORD_WEIGHTS).
       str_in k (str_lower ''call Bob'') \<longrightarrow> str_in k (str_lower ''Recall the email'')"
    by code_simp
  have h2: "8 \<le> length (str_split ''call Bob'') \<longrightarrow> 8 \<le> length (str_split ''Recall the email'')"
    by code_simp
  show ?thesis by (rule keyword_bonus_monotone [OF h1 h2])
qed

text \<open>
  C9.  The claim: every result carries the tags of its input record unchanged.
  Constructing the \<open>ScoreResult\<close> runs \<open>normalize_tags\<close> once more, now on the validated tags.
  The record that a request with the title \<^verbatim>\<open>x\<close> and the one blank tag validates to has
  the empty token as its tag; it is scored with that tag, which counts 0.03 and makes the
  score 0.38, and its result carries no tag.
\<close>

theorem score_echoes_renormalized_tags:
  "score clock [\<lparr>TodoPayload.title = ''x'', completed = False, created_at = None,
      due_date = None, tags = ['''']\<rparr>] =
   Inr [\<lparr>TodoPayload.title = ''x'', completed = False, created_at = None, due_date = None,
         tags = [], ScoreResult.priority_score = flt 0.38\<rparr>] \<and>
   priority_score \<lparr>TodoFeatures.title = ''x'', completed = False, created_at = None,
      due_date = None, tags = ['''']\<rparr> (fst (clock 0)) (snd (clock 0)) = Inr (flt 0.38) \<and>
   TodoPayload_init ''x'' False None None (RSeq [PStr ''  '']) =
   Inr \<lparr>TodoPayload.title = ''x'', completed = False, created_at = None,
      due_date = None, tags = ['''']\<rparr> \<and>
   tag_bonus [''''] = flt 0.03"
proof -
  have "str_strip ''  '' = ''''" by code_simp
  then have "TodoPayload_init ''x'' False None None (RSeq [PStr ''  '']) =
   Inr \<lparr>TodoPayload.title = ''x'', completed = False, created_at = None,
      due_date = None, tags = ['''']\<rparr>"
    by (simp add: TodoPayload_init_def normalize_tags_def)
  then show ?thesis
    using empty_tag_score blank_tag_bonus blank_tag_priority by simp
qed

text \<open>
  C10.  When the normalized creation time of the features lies after the instant \<open>now\<close>, the
  age bonus is 0.05, the bonus of an item at most 24 hours old, and not 0.
\<close>

theorem future_created_at_scores_as_fresh:
  assumes "normalize_dt (TodoFeatures.created_at f) = Inr (Some c)" and "now < c"
  shows "map_sum id (age_bonus now) (normalize_dt (TodoFeatures.created_at f)) = Inr (flt 0.05) \<and>
         age_bonus now (Some c) = flt 0.05 \<and> age_bonus now (Some c) \<noteq> 0"
proof -
  have "age_bonus now (Some c) = flt 0.05" using assms(2) by (rule age_bonus_future)
  moreover have "(0::rat) < flt 0.05" by (rule flt_pos) simp
  ultimately show ?thesis by (simp add: assms(1))
qed

theorem future_created_at_scores_as_fresh_witness:
  "map_sum id (age_bonus 5) (normalize_dt (TodoFeatures.created_at
       \<lparr>TodoFeatures.title = ''x'', completed = False,
        created_at = Some \<lparr>wall = 10, utcoffset = Some 3\<rparr>, due_date = None, tags = []\<rparr>)) = Inr (flt 0.05) \<and>
   age_bonus 5 (Some 7) = flt 0.05 \<and> age_bonus 5 (Some 7) \<noteq> 0"
proof -
  have h1: "normalize_dt (TodoFeatures.created_at
       \<lparr>TodoFeatures.title = ''x'', completed = False,
        created_at = Some \<lparr>wall = 10, utcoffset = Some 3\<rparr>, due_date = None, tags = []\<rparr>) = Inr (Some 7)"
    by (simp add: normalize_dt_def DATETIME_MAX_US_def)
  have h2: "(5::int) < 7" by simp
  show ?thesis by (rule future_created_at_scores_as_fresh [OF h1 h2])
qed

end
